theory Spec2Isabelle
  imports Main "HOL-Library.Word"
begin

section \<open>Data model\<close>

text \<open>
  A Node \<open>Buffer\<close> is a sequence of bytes. A JavaScript array of numbers, as the command
  buffers of \<open>pn532.js\<close> are, holds in each slot a number or nothing at all (an empty
  slot, read as \<open>undefined\<close>): \<open>None\<close> is the empty slot.
\<close>

type_synonym byte = "8 word"
type_synonym buffer = "byte list"
type_synonym js_array = "nat option list"

datatype direction = HostToDevice | DeviceToHost

text \<open>
  Modelled from the spec: \<open>frame.js\<close> is not among the sources. The spec's \<open>Frame\<close> is a
  sum of \<open>AckFrame\<close>, \<open>NackFrame\<close> and \<open>DataFrame\<close>, the last with a direction and a
  payload; \<open>pn532.js\<close> only tests \<open>instanceof\<close> and calls \<open>getDataBody()\<close>, so a data
  frame is kept as its direction and the buffer that \<open>getDataBody()\<close> returns.
\<close>

datatype frame = AckFrame | NackFrame | DataFrame direction buffer

fun getDataBody :: "frame \<Rightarrow> buffer" where
  "getDataBody (DataFrame d body) = body"
| "getDataBody AckFrame = []"
| "getDataBody NackFrame = []"

text \<open>
  What a promise is rejected with: the value of an \<open>error\<close> event of the frame emitter
  (opaque, a number here), the \<open>Error\<close> thrown by the TLV scan, or a \<open>TypeError\<close> raised by
  the runtime (a method called on \<open>null\<close> or \<open>undefined\<close>).
\<close>

datatype error = EmitterError nat | TlvNotFound | TypeError

datatype 'a outcome = is_Pending: Pending | is_Resolved: Resolved 'a | is_Rejected: Rejected error

datatype event = FrameEvent frame | ErrorEvent nat

datatype log_entry = Warn string | LogError error

text \<open>
  The state of one \<open>PN532\<close> instance and of its surroundings.
  \<^item> \<open>frame_listeners\<close>, \<open>error_listeners\<close>: the listeners registered on
    \<open>this.frameEmitter\<close> for \<open>'frame'\<close> and \<open>'error'\<close>, in registration order. Each
    \<open>sendCommand\<close> call creates its own \<open>onFrame\<close> and \<open>onError\<close> closures; a listener is
    named by the number of the call that created it.
  \<^item> \<open>promises\<close>: the state of the promise each \<open>sendCommand\<close> call returned.
  \<^item> \<open>removals\<close>: how many times \<open>removeListeners\<close> of each call has run.
  \<^item> \<open>written\<close>: the command buffers handed to \<open>new DataFrame(...)\<close> and written to the
    transport, oldest first.
  \<^item> \<open>logged\<close>: what went to \<open>logger.warn\<close> and \<open>logger.error\<close>.
  \<^item> \<open>incoming\<close>: what the frame emitter will emit: one list of events for each
    command awaited, the events emitted between the write of that command and the moment
    the continuation of its promise runs.
  \<^item> \<open>listeners\<close>: the events of the \<open>PN532\<close> instance itself that a listener was added
    for, one entry for each \<open>on(event, ...)\<close>.
  \<^item> \<open>polling\<close>: the \<open>scanTag\<close> calls made by the polling loops the constructor's
    \<open>'newListener'\<close> handler started, one entry for each loop started.
\<close>

record pn532 =
  frame_listeners :: "nat list"
  error_listeners :: "nat list"
  promises :: "nat \<Rightarrow> frame outcome"
  removals :: "nat \<Rightarrow> nat"
  next_promise :: nat
  written :: "js_array list"
  logged :: "log_entry list"
  incoming :: "event list list"
  listeners :: "string list"
  polling :: "nat list"

definition new_pn532 :: "event list list \<Rightarrow> pn532" where
  "new_pn532 evs =
     \<lparr>frame_listeners = [], error_listeners = [], promises = (\<lambda>r. Pending),
      removals = (\<lambda>r. 0), next_promise = 0, written = [], logged = [], incoming = evs,
      listeners = [], polling = []\<rparr>"

section \<open>The command/response engine: \<open>sendCommand\<close>\<close>

text \<open>\<open>resolve\<close> and \<open>reject\<close> of a promise: only the first call settles it.\<close>

definition settle :: "nat \<Rightarrow> frame outcome \<Rightarrow> pn532 \<Rightarrow> pn532" where
  "settle r v st =
     (if promises st r = Pending then st\<lparr>promises := (promises st)(r := v)\<rparr> else st)"

text \<open>
  \<open>removeListeners\<close> of call \<open>r\<close>: \<open>removeListener\<close> takes one registration of the
  listener out of the list, if there is one.
\<close>

definition removeListeners :: "nat \<Rightarrow> pn532 \<Rightarrow> pn532" where
  "removeListeners r st =
     st\<lparr>frame_listeners := remove1 r (frame_listeners st),
        error_listeners := remove1 r (error_listeners st),
        removals := (removals st)(r := Suc (removals st r))\<rparr>"

text \<open>
  \<open>onFrame\<close> of call \<open>r\<close>: an \<open>AckFrame\<close> is logged at level info and nothing else; a
  \<open>DataFrame\<close>, of either direction, removes the listeners and resolves the promise with
  the frame; a frame that is neither does nothing.
\<close>

fun onFrame :: "nat \<Rightarrow> frame \<Rightarrow> pn532 \<Rightarrow> pn532" where
  "onFrame r AckFrame st = st"
| "onFrame r (DataFrame d body) st = settle r (Resolved (DataFrame d body)) (removeListeners r st)"
| "onFrame r NackFrame st = st"

definition onError :: "nat \<Rightarrow> nat \<Rightarrow> pn532 \<Rightarrow> pn532" where
  "onError r e st =
     settle r (Rejected (EmitterError e))
       (removeListeners r (st\<lparr>logged := logged st @ [LogError (EmitterError e)]\<rparr>))"

text \<open>
  \<open>sendCommand(commandBuffer)\<close>: a new pending promise, \<open>onFrame\<close> and \<open>onError\<close>
  registered on the frame emitter, the command written. The number of the call is
  returned with the new state; the promise is \<open>promises st r\<close>.
\<close>

definition sendCommand :: "js_array \<Rightarrow> pn532 \<Rightarrow> nat \<times> pn532" where
  "sendCommand commandBuffer st =
     (let r = next_promise st in
      (r, st\<lparr>frame_listeners := frame_listeners st @ [r],
             error_listeners := error_listeners st @ [r],
             promises := (promises st)(r := Pending),
             next_promise := Suc r,
             written := written st @ [commandBuffer]\<rparr>))"

text \<open>
  \<open>emit\<close> of Node's \<open>EventEmitter\<close> calls the listeners registered when the event is
  emitted, in order, on a copy of the list: a listener removed by an earlier one is still
  called for this event.
\<close>

fun emit :: "event \<Rightarrow> pn532 \<Rightarrow> pn532" where
  "emit (FrameEvent f) st = fold (\<lambda>r. onFrame r f) (frame_listeners st) st"
| "emit (ErrorEvent e) st = fold (\<lambda>r. onError r e) (error_listeners st) st"

text \<open>
  Waiting for the promise of call \<open>r\<close>: the events of the next list of \<open>incoming\<close> are
  emitted, and the continuation sees the promise as it is then. With nothing left to come
  the promise stays as it is.
\<close>

definition await :: "nat \<Rightarrow> pn532 \<Rightarrow> frame outcome \<times> pn532" where
  "await r st =
     (case incoming st of
        [] \<Rightarrow> (promises st r, st)
      | evs # rest \<Rightarrow>
          (let st' = fold emit evs (st\<lparr>incoming := rest\<rparr>) in (promises st' r, st')))"

text \<open>What a list of events does to a request that is pending and listening.\<close>

fun reply :: "event list \<Rightarrow> frame outcome" where
  "reply [] = Pending"
| "reply (FrameEvent (DataFrame d body) # evs) = Resolved (DataFrame d body)"
| "reply (FrameEvent AckFrame # evs) = reply evs"
| "reply (FrameEvent NackFrame # evs) = reply evs"
| "reply (ErrorEvent e # evs) = Rejected (EmitterError e)"

text \<open>
  \<open>this.sendCommand(commandBuffer).then(...)\<close> as the tag operations use it: the command
  is sent and its promise awaited.
\<close>

definition request :: "js_array \<Rightarrow> pn532 \<Rightarrow> frame outcome \<times> pn532" where
  "request commandBuffer st = (let (r, st1) = sendCommand commandBuffer st in await r st1)"

text \<open>
  \<open>p.then(k)\<close>: \<open>k\<close> runs on the value of a resolved \<open>p\<close>; what \<open>k\<close> returns settles the
  result (\<open>Resolved\<close> for a value returned, \<open>Rejected\<close> for an exception thrown, the outcome
  of the promise for a promise returned). A rejected \<open>p\<close> passes its error on.
\<close>

definition and_then ::
  "'a outcome \<times> pn532 \<Rightarrow> ('a \<Rightarrow> pn532 \<Rightarrow> 'b outcome \<times> pn532) \<Rightarrow> 'b outcome \<times> pn532" where
  "and_then p k =
     (case p of
        (Resolved v, st) \<Rightarrow> k v st
      | (Rejected e, st) \<Rightarrow> (Rejected e, st)
      | (Pending, st) \<Rightarrow> (Pending, st))"

section \<open>JavaScript values\<close>

text \<open>\<open>buf[i]\<close>: the byte, or \<open>undefined\<close> out of range.\<close>

definition buf_at :: "buffer \<Rightarrow> nat \<Rightarrow> byte option" where
  "buf_at buf i = (if i < length buf then Some (buf ! i) else None)"

text \<open>
  \<open>slice(start, end)\<close> of a \<open>Buffer\<close> or an array: a negative index counts from the end,
  every index is clamped to the length, and nothing is returned when \<open>end\<close> is not after
  \<open>start\<close>.
\<close>

definition clamp_index :: "int \<Rightarrow> nat \<Rightarrow> nat" where
  "clamp_index i n = (if i < 0 then nat (max (int n + i) 0) else min (nat i) n)"

definition slice :: "int \<Rightarrow> int \<Rightarrow> 'a list \<Rightarrow> 'a list" where
  "slice start fin xs =
     (let s = clamp_index start (length xs); e = clamp_index fin (length xs)
      in take (e - s) (drop s xs))"

text \<open>\<open>v || d\<close> for \<open>v\<close> a number or \<open>undefined\<close>: \<open>undefined\<close> and \<open>0\<close> are falsy.\<close>

definition js_or :: "nat option \<Rightarrow> nat \<Rightarrow> nat" where
  "js_or v d = (case v of None \<Rightarrow> d | Some n \<Rightarrow> if n = 0 then d else n)"

text \<open>
  Modelled from the spec: \<open>frame.js\<close> is not among the sources. A \<open>DataFrame\<close> carries its
  payload as a byte sequence; a Node \<open>Buffer\<close> made of an array stores a number modulo 256
  and an empty slot as 0. This is the byte a slot of a written command buffer stands for.
\<close>

definition buffer_byte :: "nat option \<Rightarrow> byte" where
  "buffer_byte v = (case v of None \<Rightarrow> 0 | Some n \<Rightarrow> of_nat n)"

section \<open>Constants\<close>

text \<open>
  \<open>constants.js\<close> is not among the sources. The opcodes the operations put into their
  commands are parameters of the model.
\<close>

record constants =
  COMMAND_IN_LIST_PASSIVE_TARGET :: nat
  COMMAND_IN_DATA_EXCHANGE :: nat
  CARD_ISO14443A :: nat
  MIFARE_COMMAND_READ :: nat
  MIFARE_COMMAND_WRITE_4 :: nat

text \<open>
  Modelled from the spec: \<open>constants.js\<close> is not among the sources. The spec gives the
  type byte of the NDEF TLV as \<open>0x03\<close> and the terminator TLV as \<open>0xFE\<close>.
\<close>

definition TAG_MEM_NDEF_TLV :: nat where
  "TAG_MEM_NDEF_TLV = 0x03"

definition TAG_MEM_TERMINATOR_TLV :: nat where
  "TAG_MEM_TERMINATOR_TLV = 0xFE"

section \<open>Tag operations\<close>

subsection \<open>\<open>scanTag\<close>\<close>

record tag =
  ATQA :: buffer
  SAK :: "byte option"
  uid :: string

definition hex_digit :: "nat \<Rightarrow> char" where
  "hex_digit n = ''0123456789abcdef'' ! n"

text \<open>\<open>buf.toString('hex')\<close>: two lower-case hexadecimal digits for each byte.\<close>

definition toString_hex :: "buffer \<Rightarrow> string" where
  "toString_hex buf = concat (map (\<lambda>b. [hex_digit (unat b div 16), hex_digit (unat b mod 16)]) buf)"

text \<open>
  \<open>s.match(/.{1,2}/g)\<close> on a string with no line terminator: the string cut into pairs of
  characters from the left, the last one a single character when the length is odd;
  \<open>null\<close> (here \<open>None\<close>) when there is no match, which is when the string is empty.
\<close>

fun pairs :: "string \<Rightarrow> string list" where
  "pairs (a # b # s) = [a, b] # pairs s"
| "pairs [a] = [[a]]"
| "pairs [] = []"

definition match_pairs :: "string \<Rightarrow> string list option" where
  "match_pairs s = (if s = [] then None else Some (pairs s))"

fun join :: "string \<Rightarrow> string list \<Rightarrow> string" where
  "join sep [] = []"
| "join sep [x] = x"
| "join sep (x # y # xs) = x @ sep @ join sep (y # xs)"

definition scanTag_command :: "constants \<Rightarrow> js_array" where
  "scanTag_command c =
     (let maxNumberOfTargets = 0x01; baudRate = CARD_ISO14443A c
      in [Some (COMMAND_IN_LIST_PASSIVE_TARGET c), Some maxNumberOfTargets, Some baudRate])"

text \<open>
  The continuation of \<open>scanTag\<close> on the body of the response. \<open>6 + uidLength\<close> is \<open>NaN\<close>
  when \<open>body[5]\<close> is \<open>undefined\<close>, and \<open>slice\<close> reads \<open>NaN\<close> as 0. Calling \<open>join\<close> on
  the \<open>null\<close> of a failed match throws a \<open>TypeError\<close>, which rejects the promise. With a
  tag count other than 1 the continuation returns nothing: \<open>undefined\<close>, here \<open>None\<close>.
\<close>

definition scanTag_body :: "buffer \<Rightarrow> tag option outcome" where
  "scanTag_body body =
     (let numberOfTags = buf_at body 0 in
      if numberOfTags = Some 1 then
        (let uidLength = buf_at body 5;
             fin = (case uidLength of None \<Rightarrow> 0 | Some l \<Rightarrow> 6 + int (unat l))
         in case match_pairs (toString_hex (slice 6 fin body)) of
              None \<Rightarrow> Rejected TypeError
            | Some parts \<Rightarrow>
                Resolved (Some \<lparr>ATQA = slice 2 4 body, SAK = buf_at body 4, uid = join '':'' parts\<rparr>))
      else Resolved None)"

definition scanTag :: "constants \<Rightarrow> pn532 \<Rightarrow> tag option outcome \<times> pn532" where
  "scanTag c st =
     and_then (request (scanTag_command c) st) (\<lambda>frame st'. (scanTag_body (getDataBody frame), st'))"

subsection \<open>\<open>readBlock\<close> and \<open>writeBlock\<close>\<close>

record options =
  tagNumber :: "nat option"
  blockAddress :: "nat option"

text \<open>\<open>options || {}\<close>: an object with no property set when no options are given.\<close>

definition options_or_empty :: "options option \<Rightarrow> options" where
  "options_or_empty options =
     (case options of None \<Rightarrow> \<lparr>tagNumber = None, blockAddress = None\<rparr> | Some opts \<Rightarrow> opts)"

definition readBlock_command :: "constants \<Rightarrow> options option \<Rightarrow> js_array" where
  "readBlock_command c options =
     (let options = options_or_empty options;
          tagNumber = js_or (tagNumber options) 0x01;
          blockAddress = js_or (blockAddress options) 0x01
      in [Some (COMMAND_IN_DATA_EXCHANGE c), Some tagNumber,
          Some (MIFARE_COMMAND_READ c), Some blockAddress])"

text \<open>
  The continuation of \<open>readBlock\<close> and of \<open>writeBlock\<close> on the response frame: a warning
  when the status byte is \<open>0x13\<close>, and the body without its first and its last byte.
\<close>

definition block_of_response :: "frame \<Rightarrow> pn532 \<Rightarrow> buffer outcome \<times> pn532" where
  "block_of_response frame st =
     (let body = getDataBody frame;
          status = buf_at body 0;
          st' = (if status = Some 0x13
                 then st\<lparr>logged := logged st @
                          [Warn ''The data format does not match to the specification.'']\<rparr>
                 else st);
          block = slice 1 (int (length body) - 1) body
      in (Resolved block, st'))"

definition readBlock :: "constants \<Rightarrow> options option \<Rightarrow> pn532 \<Rightarrow> buffer outcome \<times> pn532" where
  "readBlock c options st = and_then (request (readBlock_command c options) st) block_of_response"

definition writeBlock_command :: "constants \<Rightarrow> js_array \<Rightarrow> options option \<Rightarrow> js_array" where
  "writeBlock_command c block options =
     (let options = options_or_empty options;
          tagNumber = js_or (tagNumber options) 0x01;
          blockAddress = js_or (blockAddress options) 0x01
      in [Some (COMMAND_IN_DATA_EXCHANGE c), Some tagNumber,
          Some (MIFARE_COMMAND_WRITE_4 c), Some blockAddress] @ block)"

definition writeBlock ::
  "constants \<Rightarrow> js_array \<Rightarrow> options option \<Rightarrow> pn532 \<Rightarrow> buffer outcome \<times> pn532" where
  "writeBlock c block options st =
     and_then (request (writeBlock_command c block options) st) block_of_response"

subsection \<open>\<open>readNdefData\<close>\<close>

text \<open>
  What the \<open>while\<close> loop of \<open>readNdefData\<close> ends with: the NDEF TLV found, with
  \<open>ndefLength\<close> (\<open>undefined\<close> when the length byte lies beyond the block) and
  \<open>ndefValueOffset\<close>, or the \<open>Error\<close> thrown when \<open>blockOffset\<close> has reached the end of
  the block.
\<close>

datatype scan = NdefTlv "byte option" nat | Exhausted

text \<open>
  The loop. \<open>blockOffset\<close> is a number or, once a length byte was read beyond the block,
  \<open>NaN\<close> (\<open>2 + undefined\<close>), here \<open>None\<close>. With \<open>NaN\<close> the test
  \<open>blockOffset >= block.length\<close> is false, \<open>block[NaN]\<close> is \<open>undefined\<close> and the new
  offset is \<open>NaN\<close> again: the loop does not end, and the function has no value.
\<close>

partial_function (option) find_ndef_tlv :: "buffer \<Rightarrow> nat option \<Rightarrow> scan option" where
  "find_ndef_tlv block blockOffset =
     (case blockOffset of
        None \<Rightarrow> find_ndef_tlv block None
      | Some off \<Rightarrow>
          if off \<ge> length block then Some Exhausted
          else (let type = buf_at block off;
                    len = buf_at block (off + 1)
                in if map_option unat type = Some TAG_MEM_NDEF_TLV
                   then Some (NdefTlv len (off + 2))
                   else find_ndef_tlv block
                          (case len of None \<Rightarrow> None | Some l \<Rightarrow> Some (off + 2 + unat l))))"

text \<open>
  \<open>Math.ceil((ndefValueOffset + ndefLength) / 16) - 1\<close>; \<open>NaN\<close> when \<open>ndefLength\<close> is
  \<open>undefined\<close>.
\<close>

definition additional_blocks :: "nat \<Rightarrow> byte option \<Rightarrow> int option" where
  "additional_blocks ndefValueOffset ndefLength =
     (case ndefLength of
        None \<Rightarrow> None
      | Some l \<Rightarrow> Some (int ((ndefValueOffset + unat l + 15) div 16) - 1))"

text \<open>
  The inner function \<open>retrieveBlock(blockNum)\<close>. It returns a promise while
  \<open>blockNum <= additionalBlocks\<close> and nothing (\<open>undefined\<close>, here \<open>None\<close>) otherwise; a
  comparison with \<open>NaN\<close> is false. \<open>ndefData\<close>, a variable of the enclosing function, is
  returned as the calls left it.
\<close>

function retrieveBlock ::
  "constants \<Rightarrow> int option \<Rightarrow> nat \<Rightarrow> buffer \<Rightarrow> pn532 \<Rightarrow> unit outcome option \<times> buffer \<times> pn532" where
  "retrieveBlock c additionalBlocks blockNum ndefData st =
     (if (case additionalBlocks of None \<Rightarrow> False | Some a \<Rightarrow> int blockNum \<le> a) then
        (let blockAddress = 4 * (blockNum + 1) in
         case readBlock c (Some \<lparr>tagNumber = None, blockAddress = Some blockAddress\<rparr>) st of
           (Resolved block, st1) \<Rightarrow>
             (case retrieveBlock c additionalBlocks (blockNum + 1) (ndefData @ block) st1 of
                (None, ndefData', st2) \<Rightarrow> (Some (Resolved ()), ndefData', st2)
              | (Some p, ndefData', st2) \<Rightarrow> (Some p, ndefData', st2))
         | (Rejected e, st1) \<Rightarrow> (Some (Rejected e), ndefData, st1)
         | (Pending, st1) \<Rightarrow> (Some Pending, ndefData, st1))
      else (None, ndefData, st))"
  by pat_completeness auto
termination
  by (relation "measure (\<lambda>(c, additionalBlocks, blockNum, ndefData, st).
        case additionalBlocks of None \<Rightarrow> 0 | Some a \<Rightarrow> nat (a + 1 - int blockNum))")
     (auto split: option.splits)

text \<open>
  \<open>.catch(function(error) { logger.error('ERROR:', error); })\<close>: a rejection is logged
  and the promise of \<open>readNdefData\<close> resolves with what the handler returns, which is
  nothing (\<open>undefined\<close>, here \<open>None\<close>).
\<close>

definition catch_log :: "buffer option outcome \<times> pn532 \<Rightarrow> buffer option outcome \<times> pn532" where
  "catch_log p =
     (case p of
        (Rejected e, st) \<Rightarrow> (Resolved None, st\<lparr>logged := logged st @ [LogError e]\<rparr>)
      | (Resolved v, st) \<Rightarrow> (Resolved v, st)
      | (Pending, st) \<Rightarrow> (Pending, st))"

text \<open>\<open>ndefData.slice(0, ndefLength)\<close>; an \<open>undefined\<close> end is the end of the buffer.\<close>

definition slice_upto :: "byte option \<Rightarrow> buffer \<Rightarrow> buffer" where
  "slice_upto ndefLength ndefData =
     (case ndefLength of None \<Rightarrow> ndefData | Some l \<Rightarrow> slice 0 (int (unat l)) ndefData)"

text \<open>
  \<open>readNdefData\<close>. The result is \<open>None\<close> when the TLV loop does not end. An \<open>Error\<close> thrown
  in the continuation, by the loop or by \<open>allDataPromise.then\<close> when \<open>retrieveBlock(1)\<close>
  returned \<open>undefined\<close> (a \<open>TypeError\<close>), rejects the promise the \<open>catch\<close> is attached to.
\<close>

definition readNdefData :: "constants \<Rightarrow> pn532 \<Rightarrow> (buffer option outcome \<times> pn532) option" where
  "readNdefData c st =
     (case readBlock c (Some \<lparr>tagNumber = None, blockAddress = Some 0x04\<rparr>) st of
        (Resolved block, st1) \<Rightarrow>
          (case find_ndef_tlv block (Some 0) of
             None \<Rightarrow> None
           | Some Exhausted \<Rightarrow> Some (catch_log (Rejected TlvNotFound, st1))
           | Some (NdefTlv ndefLength ndefValueOffset) \<Rightarrow>
               (let ndefData = slice (int ndefValueOffset) (int (length block)) block;
                    additionalBlocks = additional_blocks ndefValueOffset ndefLength
                in case retrieveBlock c additionalBlocks 1 ndefData st1 of
                     (None, ndefData', st2) \<Rightarrow> Some (catch_log (Rejected TypeError, st2))
                   | (Some allDataPromise, ndefData', st2) \<Rightarrow>
                       Some (catch_log (and_then (allDataPromise, st2)
                         (\<lambda>u st'. (Resolved (Some (slice_upto ndefLength ndefData')), st'))))))
      | (Rejected e, st1) \<Rightarrow> Some (catch_log (Rejected e, st1))
      | (Pending, st1) \<Rightarrow> Some (Pending, st1))"

subsection \<open>\<open>writeNdefData\<close> and \<open>emulateSetData\<close>\<close>

definition PAGE_SIZE :: nat where
  "PAGE_SIZE = 4"

text \<open>
  \<open>pageData.length = PAGE_SIZE\<close> on a shorter array: the array grows by empty slots.
\<close>

definition set_length :: "nat \<Rightarrow> js_array \<Rightarrow> js_array" where
  "set_length n xs = take n xs @ replicate (n - length xs) None"

text \<open>
  The inner function \<open>writeBlock(blockNum)\<close> of \<open>writeNdefData\<close>. \<open>block.splice(0,
  PAGE_SIZE)\<close> takes the first \<open>PAGE_SIZE\<close> elements out of \<open>block\<close>, a variable of the
  enclosing function. It returns a promise while \<open>blockNum < totalBlocks\<close> and nothing
  (\<open>undefined\<close>, here \<open>None\<close>) otherwise.
\<close>

function writeNdefData_writeBlock ::
  "constants \<Rightarrow> nat \<Rightarrow> nat \<Rightarrow> js_array \<Rightarrow> pn532 \<Rightarrow> unit outcome option \<times> js_array \<times> pn532" where
  "writeNdefData_writeBlock c totalBlocks blockNum block st =
     (if blockNum < totalBlocks then
        (let blockAddress = 0x04 + blockNum;
             pageData = take PAGE_SIZE block;
             block' = drop PAGE_SIZE block;
             pageData = (if length pageData < PAGE_SIZE then set_length PAGE_SIZE pageData else pageData)
         in case writeBlock c pageData (Some \<lparr>tagNumber = None, blockAddress = Some blockAddress\<rparr>) st of
              (Resolved b, st1) \<Rightarrow>
                (case writeNdefData_writeBlock c totalBlocks (blockNum + 1) block' st1 of
                   (None, block'', st2) \<Rightarrow> (Some (Resolved ()), block'', st2)
                 | (Some p, block'', st2) \<Rightarrow> (Some p, block'', st2))
            | (Rejected e, st1) \<Rightarrow> (Some (Rejected e), block', st1)
            | (Pending, st1) \<Rightarrow> (Some Pending, block', st1))
      else (None, block, st))"
  by pat_completeness auto
termination
  by (relation "measure (\<lambda>(c, totalBlocks, blockNum, block, st). totalBlocks - blockNum)") auto

definition writeNdefData :: "constants \<Rightarrow> js_array \<Rightarrow> pn532 \<Rightarrow> unit outcome option \<times> pn532" where
  "writeNdefData c data st =
     (let block = [Some TAG_MEM_NDEF_TLV, Some (length data)] @ data @ [Some TAG_MEM_TERMINATOR_TLV];
          totalBlocks = (length block + PAGE_SIZE - 1) div PAGE_SIZE;
          (allPromises, block', st') = writeNdefData_writeBlock c totalBlocks 0 block st
      in (allPromises, st'))"

function emulateSetData_writeBlock ::
  "constants \<Rightarrow> nat \<Rightarrow> nat \<Rightarrow> js_array \<Rightarrow> pn532 \<Rightarrow> unit outcome option \<times> js_array \<times> pn532" where
  "emulateSetData_writeBlock c totalBlocks blockNum block st =
     (if blockNum < totalBlocks then
        (let blockAddress = 0x04 + blockNum;
             pageData = take PAGE_SIZE block;
             block' = drop PAGE_SIZE block;
             pageData = (if length pageData < PAGE_SIZE then set_length PAGE_SIZE pageData else pageData)
         in case writeBlock c pageData (Some \<lparr>tagNumber = None, blockAddress = Some blockAddress\<rparr>) st of
              (Resolved b, st1) \<Rightarrow>
                (case emulateSetData_writeBlock c totalBlocks (blockNum + 1) block' st1 of
                   (None, block'', st2) \<Rightarrow> (Some (Resolved ()), block'', st2)
                 | (Some p, block'', st2) \<Rightarrow> (Some p, block'', st2))
            | (Rejected e, st1) \<Rightarrow> (Some (Rejected e), block', st1)
            | (Pending, st1) \<Rightarrow> (Some Pending, block', st1))
      else (None, block, st))"
  by pat_completeness auto
termination
  by (relation "measure (\<lambda>(c, totalBlocks, blockNum, block, st). totalBlocks - blockNum)") auto

definition emulateSetData :: "constants \<Rightarrow> js_array \<Rightarrow> pn532 \<Rightarrow> unit outcome option \<times> pn532" where
  "emulateSetData c data st =
     (let block = [Some TAG_MEM_NDEF_TLV, Some (length data)] @ data @ [Some TAG_MEM_TERMINATOR_TLV];
          totalBlocks = (length block + PAGE_SIZE - 1) div PAGE_SIZE;
          (allPromises, block', st') = emulateSetData_writeBlock c totalBlocks 0 block st
      in (allPromises, st'))"

subsection \<open>Polling for tags\<close>

text \<open>
  The \<open>'newListener'\<close> handler the constructor installs: for the event \<open>'tag'\<close> it defines
  the loop \<open>scanTag\<close> (scan, emit \<open>'tag'\<close>, wait \<open>pollInterval\<close>, again) and calls it, which
  sends a scan command at once. Only this first call of the loop is modelled; the call
  is entered in \<open>polling\<close>.
\<close>

definition newListener :: "constants \<Rightarrow> string \<Rightarrow> pn532 \<Rightarrow> pn532" where
  "newListener c event st =
     (if event = ''tag'' then
        (let (r, st') = sendCommand (scanTag_command c) st
         in st'\<lparr>polling := polling st' @ [r]\<rparr>)
      else st)"

text \<open>
  \<open>on(event, listener)\<close>, that is \<open>addListener\<close>, of the \<open>PN532\<close> instance: \<open>'newListener'\<close> is
  emitted, then the listener is added.
\<close>

definition addListener :: "constants \<Rightarrow> string \<Rightarrow> pn532 \<Rightarrow> pn532" where
  "addListener c event st = (let st' = newListener c event st in st'\<lparr>listeners := listeners st' @ [event]\<rparr>)"

text \<open>
  Opcodes for the closed examples below, as the user manual of the chip gives them. No
  general statement depends on them.
\<close>

definition pn532_constants :: constants where
  "pn532_constants =
     \<lparr>COMMAND_IN_LIST_PASSIVE_TARGET = 0x4A, COMMAND_IN_DATA_EXCHANGE = 0x40,
      CARD_ISO14443A = 0x00, MIFARE_COMMAND_READ = 0x30, MIFARE_COMMAND_WRITE_4 = 0xA2\<rparr>"

section \<open>Runs of the engine\<close>

text \<open>
  What happens to the engine, in any order: a command is sent, or the frame emitter
  emits an event.
\<close>

datatype action = Send js_array | Emit event

fun step :: "action \<Rightarrow> pn532 \<Rightarrow> pn532" where
  "step (Send commandBuffer) st = snd (sendCommand commandBuffer st)"
| "step (Emit ev) st = emit ev st"

definition run :: "action list \<Rightarrow> pn532 \<Rightarrow> pn532" where
  "run acts st = fold step acts st"

section \<open>Notions used in the proofs\<close>

text \<open>
  An event settles the requests that listen for it when it is a data frame or an error;
  \<open>settled_with\<close> is what they are settled with, \<open>listeners_of\<close> the listeners it is
  delivered to.
\<close>

fun settles :: "event \<Rightarrow> bool" where
  "settles (FrameEvent (DataFrame d body)) = True"
| "settles (FrameEvent AckFrame) = False"
| "settles (FrameEvent NackFrame) = False"
| "settles (ErrorEvent e) = True"

fun settled_with :: "event \<Rightarrow> frame outcome" where
  "settled_with (FrameEvent f) = Resolved f"
| "settled_with (ErrorEvent e) = Rejected (EmitterError e)"

fun listeners_of :: "event \<Rightarrow> pn532 \<Rightarrow> nat list" where
  "listeners_of (FrameEvent f) st = frame_listeners st"
| "listeners_of (ErrorEvent e) st = error_listeners st"

text \<open>
  The invariant of the engine: the requests that listen, for frames and for errors, are
  the pending ones, each registered once, and \<open>removeListeners\<close> has run once for each
  request that is settled and never for the others.
\<close>

definition listeners_consistent :: "pn532 \<Rightarrow> bool" where
  "listeners_consistent st =
     (distinct (frame_listeners st) \<and> distinct (error_listeners st) \<and>
      set (frame_listeners st) = {r. r < next_promise st \<and> promises st r = Pending} \<and>
      set (error_listeners st) = {r. r < next_promise st \<and> promises st r = Pending} \<and>
      (\<forall>r. removals st r = (if r < next_promise st \<and> promises st r \<noteq> Pending then 1 else 0)))"

text \<open>
  What the next \<open>readBlock\<close> or \<open>writeBlock\<close> returns, read off the events to come: the
  body of the first data frame without its first and last byte, or the first error.
\<close>

definition stripped :: "frame \<Rightarrow> buffer" where
  "stripped frame = take (length (getDataBody frame) - 2) (drop 1 (getDataBody frame))"

definition block_reply :: "event list list \<Rightarrow> buffer outcome" where
  "block_reply inc = (case inc of [] \<Rightarrow> Pending | evs # rest \<Rightarrow> map_outcome stripped (reply evs))"

text \<open>
  \<open>answered\<close>: how many of the coming commands, from the next one on and without a gap,
  are answered with a data frame. \<open>chain_outcome m\<close>: what a chain of \<open>m\<close> commands, each
  sent when the one before has resolved, ends with: it resolves when all \<open>m\<close> are answered,
  is rejected with the error that answers the first command not answered with a data frame,
  and stays pending when nothing settles that command.
\<close>

definition answered :: "event list list \<Rightarrow> nat" where
  "answered inc = length (takeWhile (\<lambda>evs. is_Resolved (reply evs)) inc)"

definition chain_outcome :: "nat \<Rightarrow> event list list \<Rightarrow> unit outcome" where
  "chain_outcome m inc =
     (if m \<le> answered inc then Resolved ()
      else case drop (answered inc) inc of
             [] \<Rightarrow> Pending
           | evs # rest \<Rightarrow> (case reply evs of Rejected e \<Rightarrow> Rejected e | _ \<Rightarrow> Pending))"

text \<open>
  The page data \<open>writeNdefData\<close> hands to \<open>writeBlock\<close>, call after call, for a given
  \<open>block\<close>, and the commands that \<open>writeBlock\<close> makes of them from block number \<open>n\<close> on.
\<close>

function page_data :: "js_array \<Rightarrow> js_array list" where
  "page_data [] = []"
| "page_data (x # xs) =
     (if length (take PAGE_SIZE (x # xs)) < PAGE_SIZE
      then set_length PAGE_SIZE (take PAGE_SIZE (x # xs)) else take PAGE_SIZE (x # xs))
     # page_data (drop PAGE_SIZE (x # xs))"
  by pat_completeness auto
termination
  by (relation "measure length") (auto simp: PAGE_SIZE_def)

definition page_commands :: "constants \<Rightarrow> nat \<Rightarrow> js_array \<Rightarrow> js_array list" where
  "page_commands c n block =
     map (\<lambda>(i, p). writeBlock_command c p (Some \<lparr>tagNumber = None, blockAddress = Some (4 + i)\<rparr>))
       (enumerate n (page_data block))"

text \<open>
  For the additional reads of \<open>readNdefData\<close>: the block a list of events gives when it
  answers a \<open>readBlock\<close> with a data frame, and the commands of \<open>k\<close> reads from block
  number \<open>n\<close> on.
\<close>

definition block_of :: "event list \<Rightarrow> buffer" where
  "block_of evs = (case reply evs of Resolved frame \<Rightarrow> stripped frame | _ \<Rightarrow> [])"

definition read_commands :: "constants \<Rightarrow> nat \<Rightarrow> nat \<Rightarrow> js_array list" where
  "read_commands c n k =
     map (\<lambda>i. readBlock_command c (Some \<lparr>tagNumber = None, blockAddress = Some (4 * (i + 1))\<rparr>))
       [n..<n + k]"

section \<open>The words of the claims\<close>

text \<open>
  The message and the pages as the claim on \<open>writeNdefData\<close> words them, on bytes: the
  type \<open>0x03\<close> and the length in front of the data, \<open>0xFE\<close> behind, cut into pages of four
  bytes, the last one filled up with zero bytes.
\<close>

definition ndef_message :: "byte list \<Rightarrow> byte list" where
  "ndef_message data = [0x03, of_nat (length data)] @ data @ [0xFE]"

fun pages :: "byte list \<Rightarrow> byte list list" where
  "pages [] = []"
| "pages (b # bs) = (take 4 (b # bs) @ replicate (4 - length (b # bs)) 0) # pages (drop 4 (b # bs))"

text \<open>
  The UID as the claim on \<open>scanTag\<close> words it: each byte as two lower-case hexadecimal
  digits, the bytes separated by colons.
\<close>

definition hex_byte :: "byte \<Rightarrow> string" where
  "hex_byte b = [hex_digit (unat b div 16), hex_digit (unat b mod 16)]"

definition colon_hex :: "byte list \<Rightarrow> string" where
  "colon_hex bs = join '':'' (map hex_byte bs)"

section \<open>Set-up\<close>

text \<open>
  The recursive equations of the loops are used by hand. The equation of the TLV loop
  is its code equation.
\<close>

declare writeNdefData_writeBlock.simps [simp del] emulateSetData_writeBlock.simps [simp del]
  retrieveBlock.simps [simp del]

declare find_ndef_tlv.simps [code]

section \<open>The engine: lemmas\<close>

lemma settle_fields [simp]:
  "frame_listeners (settle r v st) = frame_listeners st"
  "error_listeners (settle r v st) = error_listeners st"
  "removals (settle r v st) = removals st"
  "next_promise (settle r v st) = next_promise st"
  "written (settle r v st) = written st"
  "logged (settle r v st) = logged st"
  "incoming (settle r v st) = incoming st"
  "listeners (settle r v st) = listeners st"
  "polling (settle r v st) = polling st"
  "promises (settle r v st) = (if promises st r = Pending then (promises st)(r := v) else promises st)"
  by (simp_all add: settle_def)

lemma removeListeners_fields [simp]:
  "frame_listeners (removeListeners r st) = remove1 r (frame_listeners st)"
  "error_listeners (removeListeners r st) = remove1 r (error_listeners st)"
  "removals (removeListeners r st) = (removals st)(r := Suc (removals st r))"
  "next_promise (removeListeners r st) = next_promise st"
  "written (removeListeners r st) = written st"
  "logged (removeListeners r st) = logged st"
  "incoming (removeListeners r st) = incoming st"
  "listeners (removeListeners r st) = listeners st"
  "polling (removeListeners r st) = polling st"
  "promises (removeListeners r st) = promises st"
  by (simp_all add: removeListeners_def)

lemma fold_onFrame_idle:
  "f = AckFrame \<or> f = NackFrame \<Longrightarrow> fold (\<lambda>r. onFrame r f) rs st = st"
  by (induction rs arbitrary: st) auto

lemma fold_onFrame_data:
  "fold (\<lambda>r. onFrame r (DataFrame d b)) rs st =
     st\<lparr>frame_listeners := fold remove1 rs (frame_listeners st),
        error_listeners := fold remove1 rs (error_listeners st),
        promises := (\<lambda>r. if r \<in> set rs \<and> promises st r = Pending then Resolved (DataFrame d b) else promises st r),
        removals := (\<lambda>r. removals st r + count_list rs r)\<rparr>"
proof (induction rs arbitrary: st)
  case Nil
  show ?case by simp
next
  case (Cons a rs)
  have "fold (\<lambda>r. onFrame r (DataFrame d b)) (a # rs) st =
        fold (\<lambda>r. onFrame r (DataFrame d b)) rs (onFrame a (DataFrame d b) st)"
    by simp
  also note Cons.IH
  also have "(onFrame a (DataFrame d b) st)
     \<lparr>frame_listeners := fold remove1 rs (frame_listeners (onFrame a (DataFrame d b) st)),
        error_listeners := fold remove1 rs (error_listeners (onFrame a (DataFrame d b) st)),
        promises := (\<lambda>r. if r \<in> set rs \<and> promises (onFrame a (DataFrame d b) st) r = Pending then Resolved (DataFrame d b) else promises (onFrame a (DataFrame d b) st) r),
        removals := (\<lambda>r. removals (onFrame a (DataFrame d b) st) r + count_list rs r)\<rparr> =
     st\<lparr>frame_listeners := fold remove1 (a # rs) (frame_listeners st),
        error_listeners := fold remove1 (a # rs) (error_listeners st),
        promises := (\<lambda>r. if r \<in> set (a # rs) \<and> promises st r = Pending then Resolved (DataFrame d b) else promises st r),
        removals := (\<lambda>r. removals st r + count_list (a # rs) r)\<rparr>"
    by (auto simp: settle_def removeListeners_def fun_eq_iff)
  finally show ?case .
qed

lemma fold_onError:
  "fold (\<lambda>r. onError r e) rs st =
     st\<lparr>frame_listeners := fold remove1 rs (frame_listeners st),
        error_listeners := fold remove1 rs (error_listeners st),
        promises := (\<lambda>r. if r \<in> set rs \<and> promises st r = Pending then Rejected (EmitterError e) else promises st r),
        removals := (\<lambda>r. removals st r + count_list rs r),
        logged := logged st @ replicate (length rs) (LogError (EmitterError e))\<rparr>"
proof (induction rs arbitrary: st)
  case Nil
  show ?case by simp
next
  case (Cons a rs)
  have "fold (\<lambda>r. onError r e) (a # rs) st = fold (\<lambda>r. onError r e) rs (onError a e st)"
    by simp
  also note Cons.IH
  also have "(onError a e st)
     \<lparr>frame_listeners := fold remove1 rs (frame_listeners (onError a e st)),
        error_listeners := fold remove1 rs (error_listeners (onError a e st)),
        promises := (\<lambda>r. if r \<in> set rs \<and> promises (onError a e st) r = Pending then Rejected (EmitterError e) else promises (onError a e st) r),
        removals := (\<lambda>r. removals (onError a e st) r + count_list rs r),
        logged := logged (onError a e st) @ replicate (length rs) (LogError (EmitterError e))\<rparr> =
     st\<lparr>frame_listeners := fold remove1 (a # rs) (frame_listeners st),
        error_listeners := fold remove1 (a # rs) (error_listeners st),
        promises := (\<lambda>r. if r \<in> set (a # rs) \<and> promises st r = Pending then Rejected (EmitterError e) else promises st r),
        removals := (\<lambda>r. removals st r + count_list (a # rs) r),
        logged := logged st @ replicate (length (a # rs)) (LogError (EmitterError e))\<rparr>"
    by (auto simp: onError_def settle_def removeListeners_def fun_eq_iff replicate_append_same)
  finally show ?case .
qed

lemma emit_idle: "\<not> settles ev \<Longrightarrow> emit ev st = st"
  by (cases ev rule: settles.cases) (simp_all add: fold_onFrame_idle)

lemma emit_settles:
  "settles ev \<Longrightarrow> emit ev st =
     st\<lparr>frame_listeners := fold remove1 (listeners_of ev st) (frame_listeners st),
        error_listeners := fold remove1 (listeners_of ev st) (error_listeners st),
        promises := (\<lambda>r. if r \<in> set (listeners_of ev st) \<and> promises st r = Pending
                          then settled_with ev else promises st r),
        removals := (\<lambda>r. removals st r + count_list (listeners_of ev st) r),
        logged := logged st @
          (case ev of FrameEvent f \<Rightarrow> []
           | ErrorEvent e \<Rightarrow> replicate (length (error_listeners st)) (LogError (EmitterError e)))\<rparr>"
  by (induction ev rule: settles.induct) (simp_all add: fold_onFrame_data fold_onError cong: if_cong)

lemma promises_emit:
  "promises (emit ev st) r =
     (if settles ev \<and> r \<in> set (listeners_of ev st) \<and> promises st r = Pending
      then settled_with ev else promises st r)"
  by (cases "settles ev") (simp_all add: emit_idle emit_settles)

lemma emit_frame [simp]:
  "written (emit ev st) = written st"
  "next_promise (emit ev st) = next_promise st"
  "incoming (emit ev st) = incoming st"
  by (cases "settles ev"; simp add: emit_idle emit_settles)+

lemma fold_emit_frame [simp]:
  "written (fold emit evs st) = written st"
  "next_promise (fold emit evs st) = next_promise st"
  "incoming (fold emit evs st) = incoming st"
  by (induction evs arbitrary: st; simp)+

lemma settled_with_not_Pending [simp]: "settled_with ev \<noteq> Pending"
  by (cases ev) simp_all

lemma promise_settled_stays:
  "promises st r \<noteq> Pending \<Longrightarrow> promises (fold emit evs st) r = promises st r"
  by (induction evs arbitrary: st) (simp_all add: promises_emit)

lemma reply_Cons:
  "reply (ev # evs) = (if settles ev then settled_with ev else reply evs)"
  by (cases ev rule: settles.cases) simp_all

lemma promise_of_listening_request:
  "r \<in> set (frame_listeners st) \<Longrightarrow> r \<in> set (error_listeners st) \<Longrightarrow> promises st r = Pending \<Longrightarrow>
   promises (fold emit evs st) r = reply evs"
proof (induction evs arbitrary: st)
  case Nil
  then show ?case by simp
next
  case (Cons ev evs)
  show ?case
  proof (cases "settles ev")
    case True
    have "r \<in> set (listeners_of ev st)"
      using Cons.prems by (cases ev) simp_all
    then have "promises (emit ev st) r = settled_with ev"
      using True Cons.prems by (simp add: promises_emit)
    then have "promises (fold emit evs (emit ev st)) r = settled_with ev"
      by (simp add: promise_settled_stays)
    then show ?thesis using True by (simp add: reply_Cons)
  next
    case False
    then show ?thesis using Cons by (simp add: emit_idle reply_Cons)
  qed
qed

lemma promise_after_sendCommand:
  "promises (fold emit evs (snd (sendCommand commandBuffer st))) (fst (sendCommand commandBuffer st)) = reply evs"
  by (rule promise_of_listening_request) (simp_all add: sendCommand_def Let_def)

lemma fold_remove1_distinct:
  "distinct xs \<Longrightarrow> distinct (fold remove1 rs xs) \<and> set (fold remove1 rs xs) = set xs - set rs"
  by (induction rs arbitrary: xs) auto

lemma count_list_distinct: "distinct xs \<Longrightarrow> count_list xs x = (if x \<in> set xs then 1 else 0)"
  by (induction xs) auto

lemma consistent_new: "listeners_consistent (new_pn532 evs)"
  by (simp add: listeners_consistent_def new_pn532_def)

lemma consistent_sendCommand:
  "listeners_consistent st \<Longrightarrow> listeners_consistent (snd (sendCommand commandBuffer st))"
  unfolding listeners_consistent_def sendCommand_def Let_def
  by (auto simp: less_Suc_eq)

lemma consistent_emit:
  assumes "listeners_consistent st"
  shows "listeners_consistent (emit ev st)"
proof (cases "settles ev")
  case False
  then show ?thesis using assms by (simp add: emit_idle)
next
  case True
  have ls: "distinct (listeners_of ev st)"
    "set (listeners_of ev st) = {r. r < next_promise st \<and> promises st r = Pending}"
    using assms by (cases ev; simp add: listeners_consistent_def)+
  show ?thesis
    using assms ls
    unfolding listeners_consistent_def emit_settles [OF True]
    by (auto simp: fold_remove1_distinct count_list_distinct)
qed

lemma consistent_run: "listeners_consistent st \<Longrightarrow> listeners_consistent (run acts st)"
  unfolding run_def
proof (induction acts arbitrary: st)
  case Nil
  then show ?case by simp
next
  case (Cons a acts)
  have "listeners_consistent (step a st)"
    using Cons.prems by (cases a) (simp_all add: consistent_sendCommand consistent_emit)
  then show ?case using Cons.IH by simp
qed

text \<open>
  Claim C8. In every state the engine can reach from a new instance, by commands sent
  and events emitted in any order, each \<open>sendCommand\<close> call made so far is in one of two
  situations. While its promise is pending its \<open>'frame'\<close> and its \<open>'error'\<close> listener are
  each registered once and \<open>removeListeners\<close> has not run. Once the promise is settled,
  resolved with a data frame or rejected on an error event, neither listener is
  registered any more and \<open>removeListeners\<close> has run exactly once.
\<close>

theorem sendCommand_listeners_removed_once:
  assumes "r < next_promise (run acts (new_pn532 evs))"
  shows "(let st = run acts (new_pn532 evs) in
          case promises st r of
            Pending \<Rightarrow> count_list (frame_listeners st) r = 1 \<and> count_list (error_listeners st) r = 1 \<and> removals st r = 0
          | Resolved f \<Rightarrow> count_list (frame_listeners st) r = 0 \<and> count_list (error_listeners st) r = 0 \<and> removals st r = 1
          | Rejected e \<Rightarrow> count_list (frame_listeners st) r = 0 \<and> count_list (error_listeners st) r = 0 \<and> removals st r = 1)"
proof -
  define st where "st = run acts (new_pn532 evs)"
  have c: "listeners_consistent st"
    by (simp add: st_def consistent_run consistent_new)
  then have d: "count_list (frame_listeners st) r = (if promises st r = Pending then 1 else 0)"
    "count_list (error_listeners st) r = (if promises st r = Pending then 1 else 0)"
    "removals st r = (if promises st r = Pending then 0 else 1)"
    using assms by (simp_all add: st_def [symmetric] listeners_consistent_def count_list_distinct)
  have "case promises st r of
            Pending \<Rightarrow> count_list (frame_listeners st) r = 1 \<and> count_list (error_listeners st) r = 1 \<and> removals st r = 0
          | Resolved f \<Rightarrow> count_list (frame_listeners st) r = 0 \<and> count_list (error_listeners st) r = 0 \<and> removals st r = 1
          | Rejected e \<Rightarrow> count_list (frame_listeners st) r = 0 \<and> count_list (error_listeners st) r = 0 \<and> removals st r = 1"
    by (cases "promises st r") (simp_all add: d)
  then show ?thesis unfolding Let_def st_def .
qed

text \<open>
  A run with one request resolved, one rejected and one still pending.
\<close>

theorem sendCommand_listeners_removed_once_witness:
  "(let st = run [Send [Some 0x4A, Some 1, Some 0], Emit (FrameEvent AckFrame),
                  Emit (FrameEvent (DataFrame DeviceToHost [0x4B, 0x00])),
                  Send [Some 0x4A, Some 1, Some 0], Emit (ErrorEvent 7),
                  Send [Some 0x4A, Some 1, Some 0]] (new_pn532 [])
    in next_promise st = 3
     \<and> promises st 0 = Resolved (DataFrame DeviceToHost [0x4B, 0x00])
     \<and> promises st 1 = Rejected (EmitterError 7)
     \<and> promises st 2 = Pending
     \<and> removals st 0 = 1 \<and> removals st 1 = 1 \<and> removals st 2 = 0
     \<and> frame_listeners st = [2] \<and> error_listeners st = [2])"
proof -
  define acts where "acts = [Send [Some 0x4A, Some 1, Some 0], Emit (FrameEvent AckFrame),
                  Emit (FrameEvent (DataFrame DeviceToHost [0x4B, 0x00])),
                  Send [Some 0x4A, Some 1, Some 0], Emit (ErrorEvent 7),
                  Send [Some 0x4A, Some 1, Some 0]]"
  define st where "st = run acts (new_pn532 [])"
  have st: "next_promise st = 3" "promises st 0 = Resolved (DataFrame DeviceToHost [0x4B, 0x00])"
     "promises st (Suc 0) = Rejected (EmitterError 7)" "promises st 2 = Pending"
     "frame_listeners st = [2]" "error_listeners st = [2]"
    by (simp_all add: st_def acts_def run_def sendCommand_def new_pn532_def settle_def removeListeners_def onError_def)
  have "removals st 0 = 1" "removals st 1 = 1" "removals st 2 = 0"
    using sendCommand_listeners_removed_once [of 0 acts "[]", folded st_def]
      sendCommand_listeners_removed_once [of 1 acts "[]", folded st_def]
      sendCommand_listeners_removed_once [of 2 acts "[]", folded st_def]
    by (simp_all add: st)
  then show ?thesis
    using st by (simp add: st_def acts_def)
qed

text \<open>
  Claim C1, amended. The promise of a \<open>sendCommand\<close> call is settled by the first data
  frame or error event emitted after the call: it resolves with the first data frame, of
  either direction, whether or not an \<open>AckFrame\<close> came before it, and it is rejected by an
  error event that comes before any data frame. Acknowledgements settle nothing.
\<close>

theorem sendCommand_first_data_frame_resolves:
  "promises (fold emit evs (snd (sendCommand commandBuffer st))) (fst (sendCommand commandBuffer st)) = reply evs
   \<and> reply (map FrameEvent (replicate n AckFrame) @ FrameEvent (DataFrame d body) # rest) = Resolved (DataFrame d body)
   \<and> reply (map FrameEvent (replicate n AckFrame) @ ErrorEvent e # rest) = Rejected (EmitterError e)
   \<and> reply (map FrameEvent (replicate n AckFrame)) = Pending"
proof -
  have "reply (map FrameEvent (replicate n AckFrame) @ tl) = reply tl" for tl
    by (induction n) simp_all
  from this [of "FrameEvent (DataFrame d body) # rest"] this [of "ErrorEvent e # rest"] this [of "[]"]
  show ?thesis
    by (simp add: promise_after_sendCommand)
qed

text \<open>
  A scan command answered by a data frame with no acknowledgement before it.
\<close>

theorem sendCommand_first_data_frame_resolves_witness:
  "promises (fold emit [FrameEvent (DataFrame DeviceToHost [0x4B, 0x00])]
      (snd (sendCommand [Some 0x4A, Some 1, Some 0] (new_pn532 []))))
     (fst (sendCommand [Some 0x4A, Some 1, Some 0] (new_pn532 [])))
   = Resolved (DataFrame DeviceToHost [0x4B, 0x00])"
  using sendCommand_first_data_frame_resolves
    [of "[FrameEvent (DataFrame DeviceToHost [0x4B, 0x00])]" "[Some 0x4A, Some 1, Some 0]" "new_pn532 []"]
  by simp

text \<open>
  Claim C1 as stated fails: a data frame from the device that arrives with no
  acknowledgement before it resolves the request with that frame; the request is not
  rejected.
\<close>

theorem data_frame_before_ack_counterexample:
  "promises (emit (FrameEvent (DataFrame DeviceToHost [0x4B, 0x00]))
      (snd (sendCommand [Some 0x4A, Some 1, Some 0] (new_pn532 [])))) 0
   = Resolved (DataFrame DeviceToHost [0x4B, 0x00])
   \<and> \<not> is_Rejected (promises (emit (FrameEvent (DataFrame DeviceToHost [0x4B, 0x00]))
      (snd (sendCommand [Some 0x4A, Some 1, Some 0] (new_pn532 [])))) 0)"
  by (simp add: sendCommand_def new_pn532_def settle_def removeListeners_def)

section \<open>Requests and block operations\<close>

lemma sendCommand_fields [simp]:
  "fst (sendCommand cmd st) = next_promise st"
  "written (snd (sendCommand cmd st)) = written st @ [cmd]"
  "incoming (snd (sendCommand cmd st)) = incoming st"
  "logged (snd (sendCommand cmd st)) = logged st"
  "next_promise (snd (sendCommand cmd st)) = Suc (next_promise st)"
  by (simp_all add: sendCommand_def Let_def)

lemma request_eq:
  "request cmd st =
     (case incoming st of
        [] \<Rightarrow> (Pending, snd (sendCommand cmd st))
      | evs # rest \<Rightarrow> (reply evs, fold emit evs ((snd (sendCommand cmd st))\<lparr>incoming := rest\<rparr>)))"
proof (cases "incoming st")
  case Nil
  then show ?thesis
    by (simp add: request_def await_def sendCommand_def Let_def)
next
  case (Cons evs rest)
  have "promises (fold emit evs ((snd (sendCommand cmd st))\<lparr>incoming := rest\<rparr>)) (next_promise st) = reply evs"
    by (rule promise_of_listening_request) (simp_all add: sendCommand_def Let_def)
  then show ?thesis
    using Cons by (simp add: request_def await_def split_beta Let_def)
qed

lemma request_fields [simp]:
  "fst (request cmd st) = (case incoming st of [] \<Rightarrow> Pending | evs # rest \<Rightarrow> reply evs)"
  "written (snd (request cmd st)) = written st @ [cmd]"
  "incoming (snd (request cmd st)) = tl (incoming st)"
  by (simp_all add: request_eq split: list.split)

lemma slice_strip: "slice 1 (int (length body) - 1) body = take (length body - 2) (drop 1 body)"
  by (cases body) (auto simp: slice_def clamp_index_def Let_def min_def nat_diff_distrib')

lemma block_of_response_fields [simp]:
  "fst (block_of_response frame st) = Resolved (take (length (getDataBody frame) - 2) (drop 1 (getDataBody frame)))"
  "written (snd (block_of_response frame st)) = written st"
  "incoming (snd (block_of_response frame st)) = incoming st"
  "logged (snd (block_of_response frame st)) =
     logged st @ (if buf_at (getDataBody frame) 0 = Some 0x13
                  then [Warn ''The data format does not match to the specification.''] else [])"
  by (simp_all add: block_of_response_def Let_def slice_strip)

lemma and_then_fields:
  "fst (and_then p k) = (case fst p of Resolved v \<Rightarrow> fst (k v (snd p)) | Rejected e \<Rightarrow> Rejected e | Pending \<Rightarrow> Pending)"
  "snd (and_then p k) = (case fst p of Resolved v \<Rightarrow> snd (k v (snd p)) | Rejected e \<Rightarrow> snd p | Pending \<Rightarrow> snd p)"
  by (cases p; cases "fst p"; simp add: and_then_def)+

lemma exchange_fields:
  "fst (and_then (request cmd st) block_of_response) = block_reply (incoming st)"
  "written (snd (and_then (request cmd st) block_of_response)) = written st @ [cmd]"
  "incoming (snd (and_then (request cmd st) block_of_response)) = tl (incoming st)"
  by (cases "incoming st"; cases "reply (hd (incoming st))"; simp add: and_then_fields block_reply_def stripped_def request_eq)+

lemma readBlock_fields [simp]:
  "fst (readBlock c opts st) = block_reply (incoming st)"
  "written (snd (readBlock c opts st)) = written st @ [readBlock_command c opts]"
  "incoming (snd (readBlock c opts st)) = tl (incoming st)"
  by (simp_all add: readBlock_def exchange_fields)

lemma writeBlock_fields [simp]:
  "fst (writeBlock c block opts st) = block_reply (incoming st)"
  "written (snd (writeBlock c block opts st)) = written st @ [writeBlock_command c block opts]"
  "incoming (snd (writeBlock c block opts st)) = tl (incoming st)"
  by (simp_all add: writeBlock_def exchange_fields)

text \<open>
  Claim C6. When the request of \<open>readBlock\<close> is answered with a data frame, \<open>readBlock\<close>
  resolves with the body of the response without its first byte (the status) and its
  last byte, \<open>body[1 .. len-2]\<close>, whatever the status byte is. A status of \<open>0x13\<close> adds one
  warning to the log and changes nothing else: the block is returned all the same.
\<close>

theorem readBlock_strips_status_and_last_byte:
  assumes "incoming st = evs # rest" and "reply evs = Resolved (DataFrame d body)"
  shows "fst (readBlock c opts st) = Resolved (take (length body - 2) (drop 1 body))
    \<and> logged (snd (readBlock c opts st)) =
        logged (snd (request (readBlock_command c opts) st)) @
          (if buf_at body 0 = Some 0x13
           then [Warn ''The data format does not match to the specification.''] else [])
    \<and> written (snd (readBlock c opts st)) = written st @ [readBlock_command c opts]"
  using assms
  by (simp add: block_reply_def stripped_def readBlock_def and_then_fields)

text \<open>
  A response with status \<open>0x13\<close>: the four bytes between the status and the last byte
  are returned, and one warning is logged.
\<close>

theorem readBlock_strips_status_and_last_byte_witness:
  "fst (readBlock pn532_constants (Some \<lparr>tagNumber = None, blockAddress = Some 4\<rparr>)
         (new_pn532 [[FrameEvent AckFrame, FrameEvent (DataFrame DeviceToHost [0x13, 1, 2, 3, 4, 0x90])]]))
     = Resolved [1, 2, 3, 4]
   \<and> logged (snd (readBlock pn532_constants (Some \<lparr>tagNumber = None, blockAddress = Some 4\<rparr>)
         (new_pn532 [[FrameEvent AckFrame, FrameEvent (DataFrame DeviceToHost [0x13, 1, 2, 3, 4, 0x90])]])))
     = [Warn ''The data format does not match to the specification.'']"
proof -
  define st where "st = new_pn532 [[FrameEvent AckFrame, FrameEvent (DataFrame DeviceToHost [0x13, 1, 2, 3, 4, 0x90])]]"
  have a: "incoming st = [FrameEvent AckFrame, FrameEvent (DataFrame DeviceToHost [0x13, 1, 2, 3, 4, 0x90])] # []"
    by (simp add: st_def new_pn532_def)
  have b: "reply [FrameEvent AckFrame, FrameEvent (DataFrame DeviceToHost [0x13, 1, 2, 3, 4, 0x90])]
      = Resolved (DataFrame DeviceToHost [0x13, 1, 2, 3, 4, 0x90])"
    by simp
  have l: "logged (snd (request cmd st)) = []" for cmd
    by (simp add: request_eq st_def new_pn532_def sendCommand_def settle_def removeListeners_def)
  show ?thesis
    using readBlock_strips_status_and_last_byte [OF a b, of pn532_constants "Some \<lparr>tagNumber = None, blockAddress = Some 4\<rparr>"]
    by (simp add: l buf_at_def st_def [symmetric])
qed

text \<open>
  Claim C9. In the command of \<open>readBlock\<close> and of \<open>writeBlock\<close>, a \<open>tagNumber\<close> or
  \<open>blockAddress\<close> option of 0 gives the same command as the option left out, with the
  default \<open>0x01\<close> in its place (slot 1 for the tag number, slot 3 for the block address);
  so does a call with no options at all. Hence neither slot of an issued command is ever
  0: tag number 0 and block address 0 cannot be addressed. The command so built is the
  one the operation writes.
\<close>

theorem zero_option_is_default:
  "readBlock_command c (Some (opts\<lparr>tagNumber := Some 0\<rparr>)) = readBlock_command c (Some (opts\<lparr>tagNumber := None\<rparr>))
 \<and> readBlock_command c (Some (opts\<lparr>blockAddress := Some 0\<rparr>)) = readBlock_command c (Some (opts\<lparr>blockAddress := None\<rparr>))
 \<and> writeBlock_command c block (Some (opts\<lparr>tagNumber := Some 0\<rparr>)) = writeBlock_command c block (Some (opts\<lparr>tagNumber := None\<rparr>))
 \<and> writeBlock_command c block (Some (opts\<lparr>blockAddress := Some 0\<rparr>)) = writeBlock_command c block (Some (opts\<lparr>blockAddress := None\<rparr>))
 \<and> readBlock_command c (Some (opts\<lparr>tagNumber := Some 0\<rparr>)) ! 1 = Some 0x01
 \<and> readBlock_command c (Some (opts\<lparr>blockAddress := Some 0\<rparr>)) ! 3 = Some 0x01
 \<and> writeBlock_command c block (Some (opts\<lparr>tagNumber := Some 0\<rparr>)) ! 1 = Some 0x01
 \<and> writeBlock_command c block (Some (opts\<lparr>blockAddress := Some 0\<rparr>)) ! 3 = Some 0x01
 \<and> readBlock_command c None ! 1 = Some 0x01 \<and> readBlock_command c None ! 3 = Some 0x01
 \<and> writeBlock_command c block None ! 1 = Some 0x01 \<and> writeBlock_command c block None ! 3 = Some 0x01
 \<and> readBlock_command c options ! 1 \<noteq> Some 0 \<and> readBlock_command c options ! 3 \<noteq> Some 0
 \<and> writeBlock_command c block options ! 1 \<noteq> Some 0 \<and> writeBlock_command c block options ! 3 \<noteq> Some 0
 \<and> written (snd (readBlock c options st)) = written st @ [readBlock_command c options]
 \<and> written (snd (writeBlock c block options st)) = written st @ [writeBlock_command c block options]"
  by (simp add: readBlock_command_def writeBlock_command_def options_or_empty_def js_or_def Let_def
      split: option.split)

text \<open>
  Options of 0 on the opcodes of the chip: both slots hold \<open>0x01\<close>.
\<close>

theorem zero_option_is_default_witness:
  "readBlock_command pn532_constants (Some \<lparr>tagNumber = Some 0, blockAddress = Some 0\<rparr>) =
     [Some 0x40, Some 0x01, Some 0x30, Some 0x01]
 \<and> readBlock_command pn532_constants (Some \<lparr>tagNumber = Some 0, blockAddress = Some 0\<rparr>) =
     readBlock_command pn532_constants None
 \<and> writeBlock_command pn532_constants [Some 1, Some 2, Some 3, Some 4]
       (Some \<lparr>tagNumber = Some 0, blockAddress = Some 0\<rparr>) =
     [Some 0x40, Some 0x01, Some 0xA2, Some 0x01, Some 1, Some 2, Some 3, Some 4]"
proof -
  have a: "\<lparr>tagNumber = Some 0, blockAddress = Some 0\<rparr> = \<lparr>tagNumber = Some 0, blockAddress = None\<rparr>\<lparr>blockAddress := Some 0\<rparr>"
    "\<lparr>tagNumber = None, blockAddress = None\<rparr> = \<lparr>tagNumber = Some 0, blockAddress = None\<rparr>\<lparr>tagNumber := None\<rparr>"
    by simp_all
  note t = zero_option_is_default [where c = pn532_constants
      and opts = "\<lparr>tagNumber = Some 0, blockAddress = None\<rparr>"
      and block = "[Some 1, Some 2, Some 3, Some 4]" and options = None and st = "new_pn532 []"]
  have 1: "readBlock_command pn532_constants (Some \<lparr>tagNumber = Some 0, blockAddress = Some 0\<rparr>) =
      readBlock_command pn532_constants (Some \<lparr>tagNumber = Some 0, blockAddress = None\<rparr>)"
    using t [THEN conjunct2, THEN conjunct1] by simp
  have 2: "readBlock_command pn532_constants (Some \<lparr>tagNumber = Some 0, blockAddress = None\<rparr>) =
      [Some 0x40, Some 0x01, Some 0x30, Some 0x01]"
    by (simp add: readBlock_command_def options_or_empty_def js_or_def pn532_constants_def)
  have 3: "readBlock_command pn532_constants None = [Some 0x40, Some 0x01, Some 0x30, Some 0x01]"
    by (simp add: readBlock_command_def options_or_empty_def js_or_def pn532_constants_def)
  have 4: "writeBlock_command pn532_constants [Some 1, Some 2, Some 3, Some 4]
       (Some \<lparr>tagNumber = Some 0, blockAddress = Some 0\<rparr>) =
     [Some 0x40, Some 0x01, Some 0xA2, Some 0x01, Some 1, Some 2, Some 3, Some 4]"
    by (simp add: writeBlock_command_def options_or_empty_def js_or_def pn532_constants_def)
  show ?thesis
    unfolding 1 2 3 4 by simp
qed

section \<open>\<open>scanTag\<close>\<close>

lemma pairs_toString_hex: "pairs (toString_hex bs) = map hex_byte bs"
  by (induction bs) (simp_all add: toString_hex_def hex_byte_def)

lemma toString_hex_Nil: "toString_hex bs = [] \<longleftrightarrow> bs = []"
  by (cases bs) (simp_all add: toString_hex_def)

lemma slice_nat: "slice (int a) (int b) xs = take (b - a) (drop a xs)"
  by (auto simp: slice_def clamp_index_def Let_def min_def)

lemma slice_nat2 [simp]: "slice 2 4 xs = take 2 (drop 2 xs)"
  using slice_nat [of 2 4 xs] by simp

lemma slice_nat6: "slice 6 (6 + int n) xs = take n (drop 6 xs)"
  using slice_nat [of 6 "6 + n" xs] by simp

lemma slice_uint6: "slice 6 (6 + uint l) xs = take (unat l) (drop 6 xs)"
  using slice_nat6 [of "unat l" xs] by simp

lemma scanTag_fst:
  "fst (scanTag c st) =
     (case incoming st of
        [] \<Rightarrow> Pending
      | evs # rest \<Rightarrow>
          (case reply evs of
             Resolved frame \<Rightarrow> scanTag_body (getDataBody frame)
           | Rejected e \<Rightarrow> Rejected e
           | Pending \<Rightarrow> Pending))"
  by (simp add: scanTag_def and_then_fields split: list.split outcome.split)

text \<open>
  Claim C5, amended. On the body of the scan response: with a tag count \<open>body[0]\<close> other
  than 1 (or no byte at all) \<open>scanTag\<close> resolves with no tag; with \<open>body[0] = 1\<close>, a body
  of more than six bytes and a UID length \<open>body[5]\<close> other than 0 it resolves with the tag
  of ATQA \<open>body[2..3]\<close>, SAK \<open>body[4]\<close> and, as UID, the \<open>body[5]\<close> bytes from index 6 on
  (as many of them as the body has) as colon-separated lower-case hexadecimal; and
  whenever it resolves with a tag, \<open>body[0] = 1\<close>. \<open>scanTag\<close> resolves with what this
  gives on the body of the data frame that answers its request.
\<close>

theorem scanTag_body_tag:
  "(buf_at body 0 \<noteq> Some 1 \<longrightarrow> scanTag_body body = Resolved None)
 \<and> (buf_at body 0 = Some 1 \<and> 6 < length body \<and> body ! 5 \<noteq> 0 \<longrightarrow>
      scanTag_body body =
        Resolved (Some \<lparr>ATQA = [body ! 2, body ! 3], SAK = Some (body ! 4),
                        uid = colon_hex (take (unat (body ! 5)) (drop 6 body))\<rparr>))
 \<and> (scanTag_body body = Resolved (Some t) \<longrightarrow> buf_at body 0 = Some 1)
 \<and> (incoming st = evs # rest \<and> reply evs = Resolved (DataFrame d body) \<longrightarrow>
      fst (scanTag c st) = scanTag_body body)"
proof (intro conjI impI)
  assume "buf_at body 0 \<noteq> Some 1"
  then show "scanTag_body body = Resolved None"
    by (simp add: scanTag_body_def)
next
  assume a: "buf_at body 0 = Some 1 \<and> 6 < length body \<and> body ! 5 \<noteq> 0"
  then have n: "unat (body ! 5) \<noteq> 0"
    by (simp add: unat_eq_0)
  have at: "buf_at body 5 = Some (body ! 5)" "buf_at body 4 = Some (body ! 4)"
    using a by (simp_all add: buf_at_def)
  have u: "take (unat (body ! 5)) (drop 6 body) \<noteq> []"
    using a n by simp
  have q: "take 2 (drop 2 body) = [body ! 2, body ! 3]"
  proof -
    have "drop 2 body = body ! 2 # drop 3 body"
      using a Cons_nth_drop_Suc [of 2 body] by simp
    moreover have "drop 3 body = body ! 3 # drop 4 body"
      using a Cons_nth_drop_Suc [of 3 body] by simp
    ultimately show ?thesis by simp
  qed
  show "scanTag_body body =
        Resolved (Some \<lparr>ATQA = [body ! 2, body ! 3], SAK = Some (body ! 4),
                        uid = colon_hex (take (unat (body ! 5)) (drop 6 body))\<rparr>)"
    using a u
    by (simp add: scanTag_body_def at slice_uint6 match_pairs_def toString_hex_Nil
        pairs_toString_hex colon_hex_def q Let_def)
next
  assume "scanTag_body body = Resolved (Some t)"
  then show "buf_at body 0 = Some 1"
    by (auto simp: scanTag_body_def split: if_splits)
next
  assume "incoming st = evs # rest \<and> reply evs = Resolved (DataFrame d body)"
  then show "fst (scanTag c st) = scanTag_body body"
    by (simp add: scanTag_fst)
qed

text \<open>
  The body \<open>[1,1,0x00,0x04,0x08,4,0xDE,0xAD,0xBE,0xEF]\<close> gives ATQA \<open>[0x00,0x04]\<close>, SAK
  \<open>0x08\<close> and UID \<open>de:ad:be:ef\<close>; a tag count of 0 or 2 gives no tag.
\<close>

theorem scanTag_body_tag_witness:
  "scanTag_body [1, 1, 0x00, 0x04, 0x08, 4, 0xDE, 0xAD, 0xBE, 0xEF]
     = Resolved (Some \<lparr>ATQA = [0x00, 0x04], SAK = Some 0x08, uid = ''de:ad:be:ef''\<rparr>)
   \<and> scanTag_body [0, 1, 0x00, 0x04, 0x08, 4, 0xDE, 0xAD, 0xBE, 0xEF] = Resolved None
   \<and> scanTag_body [2, 1, 0x00, 0x04, 0x08, 4, 0xDE, 0xAD, 0xBE, 0xEF] = Resolved None
   \<and> fst (scanTag pn532_constants (new_pn532 [[FrameEvent AckFrame,
        FrameEvent (DataFrame DeviceToHost [1, 1, 0x00, 0x04, 0x08, 4, 0xDE, 0xAD, 0xBE, 0xEF])]]))
     = Resolved (Some \<lparr>ATQA = [0x00, 0x04], SAK = Some 0x08, uid = ''de:ad:be:ef''\<rparr>)"
proof -
  define b :: buffer where "b = [1, 1, 0x00, 0x04, 0x08, 4, 0xDE, 0xAD, 0xBE, 0xEF]"
  define evs where "evs = [FrameEvent AckFrame, FrameEvent (DataFrame DeviceToHost b)]"
  have u: "colon_hex (take (unat (b ! 5)) (drop 6 b)) = ''de:ad:be:ef''"
    by (simp add: b_def colon_hex_def hex_byte_def hex_digit_def)
  have h: "buf_at b 0 = Some 1 \<and> 6 < length b \<and> b ! 5 \<noteq> 0"
    by (simp add: b_def buf_at_def)
  have f: "b ! 2 = 0" "b ! 3 = 4" "b ! 4 = 8"
    by (simp_all add: b_def)
  have 1: "scanTag_body b = Resolved (Some \<lparr>ATQA = [0x00, 0x04], SAK = Some 0x08, uid = ''de:ad:be:ef''\<rparr>)"
    using scanTag_body_tag [of b, THEN conjunct2, THEN conjunct1, rule_format, OF h]
    by (simp only: u f)
  have i: "incoming (new_pn532 [evs]) = evs # [] \<and> reply evs = Resolved (DataFrame DeviceToHost b)"
    by (simp add: new_pn532_def evs_def)
  have 2: "fst (scanTag pn532_constants (new_pn532 [evs])) = scanTag_body b"
    using scanTag_body_tag [of b, THEN conjunct2, THEN conjunct2, THEN conjunct2, rule_format, OF i] .
  have 3: "scanTag_body [0, 1, 0x00, 0x04, 0x08, 4, 0xDE, 0xAD, 0xBE, 0xEF] = Resolved None"
    by (rule scanTag_body_tag [THEN conjunct1, rule_format]) (simp add: buf_at_def)
  have 4: "scanTag_body [2, 1, 0x00, 0x04, 0x08, 4, 0xDE, 0xAD, 0xBE, 0xEF] = Resolved None"
    by (rule scanTag_body_tag [THEN conjunct1, rule_format]) (simp add: buf_at_def)
  show ?thesis
    using 1 2 3 4 unfolding evs_def b_def by simp
qed

text \<open>
  Claim C5 as stated fails: with \<open>body[0] = 1\<close> and a UID length of 0 the hexadecimal
  string is empty, \<open>match\<close> returns \<open>null\<close>, and \<open>scanTag\<close> is rejected with a
  \<open>TypeError\<close>; it returns no tag.
\<close>

theorem scanTag_empty_uid_counterexample:
  "fst (scanTag pn532_constants (new_pn532 [[FrameEvent AckFrame,
        FrameEvent (DataFrame DeviceToHost [1, 1, 0x00, 0x04, 0x08, 0])]])) = Rejected TypeError"
proof -
  have "scanTag_body [1, 1, 0x00, 0x04, 0x08, 0] = Rejected TypeError"
    by (simp add: scanTag_body_def buf_at_def slice_def clamp_index_def
      toString_hex_def match_pairs_def)
  then show ?thesis
    by (simp add: scanTag_fst new_pn532_def)
qed

section \<open>\<open>writeNdefData\<close> and \<open>emulateSetData\<close>\<close>

lemma answered_simps [simp]:
  "answered [] = 0"
  "answered (evs # rest) = (if is_Resolved (reply evs) then Suc (answered rest) else 0)"
  by (simp_all add: answered_def)

lemma block_reply_simps [simp]:
  "block_reply [] = Pending"
  "block_reply (evs # rest) = map_outcome stripped (reply evs)"
  by (simp_all add: block_reply_def)

lemma writeNdefData_writeBlock_unfold:
  assumes "n < totalBlocks"
    and "pageData = (if length (take PAGE_SIZE block) < PAGE_SIZE
                     then set_length PAGE_SIZE (take PAGE_SIZE block) else take PAGE_SIZE block)"
    and "w = writeBlock c pageData (Some \<lparr>tagNumber = None, blockAddress = Some (4 + n)\<rparr>) st"
  shows "writeNdefData_writeBlock c totalBlocks n block st =
     (case fst w of
           Resolved b \<Rightarrow>
             (case writeNdefData_writeBlock c totalBlocks (n + 1) (drop PAGE_SIZE block) (snd w) of
                (None, r) \<Rightarrow> (Some (Resolved ()), r)
              | (Some p, r) \<Rightarrow> (Some p, r))
         | Rejected e \<Rightarrow> (Some (Rejected e), drop PAGE_SIZE block, snd w)
         | Pending \<Rightarrow> (Some Pending, drop PAGE_SIZE block, snd w))"
proof -
  obtain r st1 where w: "w = (r, st1)"
    by (cases w)
  have "writeNdefData_writeBlock c totalBlocks n block st =
     (case w of
        (Resolved b, st1) \<Rightarrow>
          (case writeNdefData_writeBlock c totalBlocks (n + 1) (drop PAGE_SIZE block) st1 of
             (None, block'', st2) \<Rightarrow> (Some (Resolved ()), block'', st2)
           | (Some p, block'', st2) \<Rightarrow> (Some p, block'', st2))
      | (Rejected e, st1) \<Rightarrow> (Some (Rejected e), drop PAGE_SIZE block, st1)
      | (Pending, st1) \<Rightarrow> (Some Pending, drop PAGE_SIZE block, st1))"
    unfolding assms(2,3)
    by (subst writeNdefData_writeBlock.simps) (simp only: assms(1) if_True Let_def)
  also have "\<dots> =
     (case fst w of
           Resolved b \<Rightarrow>
             (case writeNdefData_writeBlock c totalBlocks (n + 1) (drop PAGE_SIZE block) (snd w) of
                (None, r) \<Rightarrow> (Some (Resolved ()), r)
              | (Some p, r) \<Rightarrow> (Some p, r))
         | Rejected e \<Rightarrow> (Some (Rejected e), drop PAGE_SIZE block, snd w)
         | Pending \<Rightarrow> (Some Pending, drop PAGE_SIZE block, snd w))"
    unfolding w
    by (cases r) (simp_all split: prod.split option.split)
  finally show ?thesis .
qed

lemma writeNdefData_writeBlock_done:
  "\<not> n < totalBlocks \<Longrightarrow> writeNdefData_writeBlock c totalBlocks n block st = (None, block, st)"
  by (subst writeNdefData_writeBlock.simps) simp

lemma chain_outcome_Cons:
  "chain_outcome (Suc m) (evs # rest) =
     (case reply evs of Resolved f \<Rightarrow> (if m = 0 then Resolved () else chain_outcome m rest)
      | Rejected e \<Rightarrow> Rejected e | Pending \<Rightarrow> Pending)"
  by (cases "reply evs") (auto simp: chain_outcome_def)

lemma chain_outcome_Nil: "chain_outcome (Suc m) [] = Pending"
  by (simp add: chain_outcome_def)

lemma chain_outcome_0: "chain_outcome 0 inc = Resolved ()"
  by (simp add: chain_outcome_def)

lemma writeNdefData_writeBlock_run:
  "totalBlocks = n + length (page_data block) \<Longrightarrow>
   fst (writeNdefData_writeBlock c totalBlocks n block st) =
     (if n < totalBlocks then Some (chain_outcome (totalBlocks - n) (incoming st)) else None)
   \<and> written (snd (snd (writeNdefData_writeBlock c totalBlocks n block st))) =
       written st @ take (Suc (answered (incoming st))) (page_commands c n block)"
proof (induction block arbitrary: n st rule: page_data.induct)
  case 1
  then show ?case
    by (simp add: writeNdefData_writeBlock_done page_commands_def)
next
  case (2 x xs)
  define pageData where "pageData = (if length (take PAGE_SIZE (x # xs)) < PAGE_SIZE
                   then set_length PAGE_SIZE (take PAGE_SIZE (x # xs)) else take PAGE_SIZE (x # xs))"
  define opts where "opts = Some \<lparr>tagNumber = None, blockAddress = Some (4 + n)\<rparr>"
  define w where "w = writeBlock c pageData opts st"
  define block' where "block' = drop PAGE_SIZE (x # xs)"
  define rest where "rest = writeNdefData_writeBlock c totalBlocks (n + 1) block' (snd w)"
  define cmd where "cmd = writeBlock_command c pageData opts"
  have lt: "n < totalBlocks" and tot: "totalBlocks = (n + 1) + length (page_data block')"
    using "2.prems" by (simp_all add: block'_def)
  have IH: "fst rest = (if n + 1 < totalBlocks then Some (chain_outcome (totalBlocks - (n + 1)) (incoming (snd w))) else None)"
    "written (snd (snd rest)) = written (snd w) @ take (Suc (answered (incoming (snd w)))) (page_commands c (n + 1) block')"
    using "2.IH" [OF tot [unfolded block'_def], of "snd w"] by (simp_all add: rest_def block'_def)
  have cmds: "page_commands c n (x # xs) = cmd # page_commands c (n + 1) block'"
    by (simp add: page_commands_def cmd_def pageData_def opts_def block'_def)
  have m: "totalBlocks - n = Suc (totalBlocks - (n + 1))"
    using lt by simp
  have w: "fst w = block_reply (incoming st)" "written (snd w) = written st @ [cmd]"
    "incoming (snd w) = tl (incoming st)"
    by (simp_all add: w_def cmd_def)
  have u: "writeNdefData_writeBlock c totalBlocks n (x # xs) st =
     (case fst w of
           Resolved b \<Rightarrow> (case rest of (None, r) \<Rightarrow> (Some (Resolved ()), r) | (Some p, r) \<Rightarrow> (Some p, r))
         | Rejected e \<Rightarrow> (Some (Rejected e), block', snd w)
         | Pending \<Rightarrow> (Some Pending, block', snd w))"
    unfolding rest_def block'_def
    by (rule writeNdefData_writeBlock_unfold [OF lt pageData_def w_def [unfolded opts_def]])
  show ?case
  proof (cases "incoming st")
    case Nil
    then show ?thesis
      using lt by (simp add: u w cmds m chain_outcome_Nil)
  next
    case (Cons evs inc)
    show ?thesis
    proof (cases "reply evs")
      case Pending
      then show ?thesis
        using lt Cons by (simp add: u w cmds m chain_outcome_Cons)
    next
      case (Rejected e)
      then show ?thesis
        using lt Cons by (simp add: u w cmds m chain_outcome_Cons)
    next
      case (Resolved f)
      have u': "writeNdefData_writeBlock c totalBlocks n (x # xs) st =
          (case rest of (None, r) \<Rightarrow> (Some (Resolved ()), r) | (Some p, r) \<Rightarrow> (Some p, r))"
        using Cons Resolved by (simp add: u w)
      have z: "totalBlocks - (n + 1) = 0 \<longleftrightarrow> \<not> n + 1 < totalBlocks"
        using lt by auto
      have a: "answered (incoming st) = Suc (answered inc)" "incoming (snd w) = inc"
        using Cons Resolved by (simp_all add: w)
      have c: "chain_outcome (totalBlocks - n) (incoming st) =
          (if n + 1 < totalBlocks then chain_outcome (totalBlocks - (n + 1)) inc else Resolved ())"
        unfolding m Cons using Resolved z by (simp add: chain_outcome_Cons)
      have "fst (writeNdefData_writeBlock c totalBlocks n (x # xs) st) =
          Some (chain_outcome (totalBlocks - n) (incoming st))"
        unfolding u' c using IH(1) a(2)
        by (cases rest; cases "fst rest") (auto split: if_splits)
      moreover have "written (snd (snd (writeNdefData_writeBlock c totalBlocks n (x # xs) st))) =
          written st @ take (Suc (answered (incoming st))) (page_commands c n (x # xs))"
        unfolding u' cmds a(1) using IH(2) a(2) w(2)
        by (cases rest; cases "fst rest") auto
      ultimately show ?thesis using lt by simp
    qed
  qed
qed

lemma length_page_data: "length (page_data block) = (length block + PAGE_SIZE - 1) div PAGE_SIZE"
proof (induction block rule: page_data.induct)
  case 1
  show ?case by (simp add: PAGE_SIZE_def)
next
  case (2 x xs)
  have "Suc ((l - 4 + 3) div 4) = (l + 3) div 4" if "0 < l" for l :: nat
  proof (cases "4 \<le> l")
    case True
    then obtain m where "l = m + 4"
      by (metis add.commute le_iff_add)
    then show ?thesis by simp
  next
    case False
    with that have "l = 1 \<or> l = 2 \<or> l = 3"
      by arith
    then show ?thesis by auto
  qed
  from this [of "length (x # xs)"] show ?case
    using 2 by (simp add: PAGE_SIZE_def)
qed

lemma page_data_bytes: "map (map buffer_byte) (page_data block) = pages (map buffer_byte block)"
proof (induction block rule: page_data.induct)
  case 1
  show ?case by simp
next
  case (2 x xs)
  have "map buffer_byte (if length (take PAGE_SIZE (x # xs)) < PAGE_SIZE
      then set_length PAGE_SIZE (take PAGE_SIZE (x # xs)) else take PAGE_SIZE (x # xs)) =
    take 4 (map buffer_byte (x # xs)) @ replicate (4 - length (map buffer_byte (x # xs))) 0"
    by (auto simp: PAGE_SIZE_def set_length_def buffer_byte_def take_map min_def)
  moreover have "map (map buffer_byte) (page_data (drop PAGE_SIZE (x # xs))) =
      pages (drop 4 (map buffer_byte (x # xs)))"
    using 2 by (simp add: PAGE_SIZE_def drop_map)
  ultimately show ?case
    by (simp del: drop_Suc_Cons take_Suc_Cons)
qed

lemma enumerate_map: "enumerate n (map f xs) = map (\<lambda>(i, x). (i, f x)) (enumerate n xs)"
  by (induction xs arbitrary: n) simp_all

lemma writeBlock_command_view:
  "take 4 (writeBlock_command c p (Some \<lparr>tagNumber = None, blockAddress = Some (4 + i)\<rparr>)) =
     [Some (COMMAND_IN_DATA_EXCHANGE c), Some 0x01, Some (MIFARE_COMMAND_WRITE_4 c), Some (0x04 + i)]"
  "drop 4 (writeBlock_command c p (Some \<lparr>tagNumber = None, blockAddress = Some (4 + i)\<rparr>)) = p"
  by (simp_all add: writeBlock_command_def options_or_empty_def js_or_def)

lemma page_commands_view:
  "map (\<lambda>cmd. (take 4 cmd, map buffer_byte (drop 4 cmd))) (page_commands c n block) =
   map (\<lambda>(i, page). ([Some (COMMAND_IN_DATA_EXCHANGE c), Some 0x01,
                        Some (MIFARE_COMMAND_WRITE_4 c), Some (0x04 + i)], page))
     (enumerate n (pages (map buffer_byte block)))"
proof -
  have "map (\<lambda>cmd. (take 4 cmd, map buffer_byte (drop 4 cmd))) (page_commands c n block) =
      map (\<lambda>(i, p). ([Some (COMMAND_IN_DATA_EXCHANGE c), Some 0x01,
                        Some (MIFARE_COMMAND_WRITE_4 c), Some (0x04 + i)], map buffer_byte p))
        (enumerate n (page_data block))"
    unfolding page_commands_def map_map
    by (rule map_cong [OF refl]) (simp add: split_beta writeBlock_command_view)
  also have "\<dots> = map (\<lambda>(i, page). ([Some (COMMAND_IN_DATA_EXCHANGE c), Some 0x01,
                        Some (MIFARE_COMMAND_WRITE_4 c), Some (0x04 + i)], page))
     (enumerate n (map (map buffer_byte) (page_data block)))"
    by (simp add: enumerate_map split_beta)
  finally show ?thesis
    by (simp add: page_data_bytes)
qed

lemma writeNdefData_run:
  "fst (writeNdefData c data st) =
     Some (chain_outcome (length (pages (ndef_message (map buffer_byte data)))) (incoming st))
   \<and> written (snd (writeNdefData c data st)) =
       written st @ take (Suc (answered (incoming st)))
         (page_commands c 0 ([Some TAG_MEM_NDEF_TLV, Some (length data)] @ data @ [Some TAG_MEM_TERMINATOR_TLV]))"
proof -
  define block where "block = [Some TAG_MEM_NDEF_TLV, Some (length data)] @ data @ [Some TAG_MEM_TERMINATOR_TLV]"
  define totalBlocks where "totalBlocks = (length block + PAGE_SIZE - 1) div PAGE_SIZE"
  have t: "totalBlocks = 0 + length (page_data block)"
    by (simp add: totalBlocks_def length_page_data)
  have pos: "0 < totalBlocks"
    by (simp add: totalBlocks_def block_def PAGE_SIZE_def)
  have l: "length (pages (ndef_message (map buffer_byte data))) = totalBlocks"
  proof -
    have "map buffer_byte block = ndef_message (map buffer_byte data)"
      by (simp add: block_def ndef_message_def buffer_byte_def TAG_MEM_NDEF_TLV_def TAG_MEM_TERMINATOR_TLV_def)
    then have "pages (ndef_message (map buffer_byte data)) = map (map buffer_byte) (page_data block)"
      by (simp add: page_data_bytes)
    then show ?thesis using t by simp
  qed
  have w: "writeNdefData c data st =
      (fst (writeNdefData_writeBlock c totalBlocks 0 block st),
       snd (snd (writeNdefData_writeBlock c totalBlocks 0 block st)))"
    by (simp add: writeNdefData_def Let_def block_def totalBlocks_def split_beta)
  show ?thesis
    using writeNdefData_writeBlock_run [OF t, of c st] pos
    unfolding w l block_def [symmetric] by simp
qed

text \<open>
  Claim C3. For every \<open>data\<close>, \<open>writeNdefData\<close> leaves what was written before in place
  and appends \<open>writeBlock\<close> commands, one for each page of \<open>[0x03, len(data)] ++ data ++
  [0xFE]\<close> cut into pages of four bytes with the last one filled up with zero bytes (an
  empty slot of the page array is the byte \<open>0x00\<close>), for tag number \<open>0x01\<close> and the block
  addresses \<open>0x04\<close>, \<open>0x05\<close>, ... in this order. A command is written only when every
  command before it has been answered with a data frame: of the commands, the first
  \<open>answered + 1\<close> are written. The promise resolves when every page has been answered.
  For the data \<open>AB\<close> the pages are \<open>[0x03,0x02,0x41,0x42]\<close> and \<open>[0xFE,0x00,0x00,0x00]\<close>.
\<close>

theorem writeNdefData_writes_pages:
  "take (length (written st)) (written (snd (writeNdefData c data st))) = written st
 \<and> map (\<lambda>cmd. (take 4 cmd, map buffer_byte (drop 4 cmd)))
       (drop (length (written st)) (written (snd (writeNdefData c data st)))) =
     take (Suc (answered (incoming st)))
       (map (\<lambda>(i, page). ([Some (COMMAND_IN_DATA_EXCHANGE c), Some 0x01,
                            Some (MIFARE_COMMAND_WRITE_4 c), Some (0x04 + i)], page))
          (enumerate 0 (pages (ndef_message (map buffer_byte data)))))
 \<and> fst (writeNdefData c data st) =
     Some (chain_outcome (length (pages (ndef_message (map buffer_byte data)))) (incoming st))
 \<and> pages (ndef_message [0x41, 0x42]) = [[0x03, 0x02, 0x41, 0x42], [0xFE, 0x00, 0x00, 0x00]]"
proof -
  define block where "block = [Some TAG_MEM_NDEF_TLV, Some (length data)] @ data @ [Some TAG_MEM_TERMINATOR_TLV]"
  have b: "map buffer_byte block = ndef_message (map buffer_byte data)"
    by (simp add: block_def ndef_message_def buffer_byte_def TAG_MEM_NDEF_TLV_def TAG_MEM_TERMINATOR_TLV_def)
  have w: "written (snd (writeNdefData c data st)) =
      written st @ take (Suc (answered (incoming st))) (page_commands c 0 block)"
    using writeNdefData_run [of c data st] by (simp add: block_def)
  have 1: "take (length (written st)) (written (snd (writeNdefData c data st))) = written st"
    by (simp add: w)
  have 2: "map (\<lambda>cmd. (take 4 cmd, map buffer_byte (drop 4 cmd)))
       (drop (length (written st)) (written (snd (writeNdefData c data st)))) =
     take (Suc (answered (incoming st)))
       (map (\<lambda>(i, page). ([Some (COMMAND_IN_DATA_EXCHANGE c), Some 0x01,
                            Some (MIFARE_COMMAND_WRITE_4 c), Some (0x04 + i)], page))
          (enumerate 0 (pages (ndef_message (map buffer_byte data)))))"
    unfolding w b [symmetric] page_commands_view [symmetric]
    by (simp add: take_map)
  have 3: "pages (ndef_message [0x41, 0x42]) = [[0x03, 0x02, 0x41, 0x42], [0xFE, 0x00, 0x00, 0x00]]"
    by (simp add: ndef_message_def numeral_3_eq_3)
  show ?thesis
    using 1 2 3 writeNdefData_run [of c data st] by blast
qed

text \<open>
  Writing \<open>AB\<close> to a device that answers both commands: the two command buffers as
  written (the second page ends in three empty slots), their pages as bytes, and the
  promise resolved.
\<close>

theorem writeNdefData_writes_pages_witness:
  "written (snd (writeNdefData pn532_constants [Some 0x41, Some 0x42]
      (new_pn532 [[FrameEvent AckFrame, FrameEvent (DataFrame DeviceToHost [0x00, 0x00])],
                  [FrameEvent AckFrame, FrameEvent (DataFrame DeviceToHost [0x00, 0x00])]]))) =
     [[Some 0x40, Some 0x01, Some 0xA2, Some 0x04, Some 0x03, Some 0x02, Some 0x41, Some 0x42],
      [Some 0x40, Some 0x01, Some 0xA2, Some 0x05, Some 0xFE, None, None, None]]
 \<and> map (\<lambda>cmd. (take 4 cmd, map buffer_byte (drop 4 cmd)))
      (written (snd (writeNdefData pn532_constants [Some 0x41, Some 0x42]
        (new_pn532 [[FrameEvent AckFrame, FrameEvent (DataFrame DeviceToHost [0x00, 0x00])],
                    [FrameEvent AckFrame, FrameEvent (DataFrame DeviceToHost [0x00, 0x00])]])))) =
     [([Some 0x40, Some 0x01, Some 0xA2, Some 0x04], [0x03, 0x02, 0x41, 0x42]),
      ([Some 0x40, Some 0x01, Some 0xA2, Some 0x05], [0xFE, 0x00, 0x00, 0x00])]
 \<and> fst (writeNdefData pn532_constants [Some 0x41, Some 0x42]
      (new_pn532 [[FrameEvent AckFrame, FrameEvent (DataFrame DeviceToHost [0x00, 0x00])],
                  [FrameEvent AckFrame, FrameEvent (DataFrame DeviceToHost [0x00, 0x00])]])) =
     Some (Resolved ())"
proof -
  define st where "st = new_pn532 [[FrameEvent AckFrame, FrameEvent (DataFrame DeviceToHost [0x00, 0x00])],
                  [FrameEvent AckFrame, FrameEvent (DataFrame DeviceToHost [0x00, 0x00])]]"
  define data :: js_array where "data = [Some 0x41, Some 0x42]"
  have s: "written st = []" "answered (incoming st) = 2"
    by (simp_all add: st_def new_pn532_def)
  have p: "pages (ndef_message (map buffer_byte data)) = [[0x03, 0x02, 0x41, 0x42], [0xFE, 0x00, 0x00, 0x00]]"
    by (simp add: data_def ndef_message_def buffer_byte_def numeral_3_eq_3)
  have c: "chain_outcome (Suc (Suc 0)) (incoming st) = Resolved ()"
    by (simp add: chain_outcome_def s)
  note t = writeNdefData_writes_pages [of st pn532_constants data, unfolded s p, simplified]
  have v: "map (\<lambda>cmd. (take 4 cmd, map buffer_byte (drop 4 cmd)))
      (written (snd (writeNdefData pn532_constants data st))) =
     [([Some 0x40, Some 0x01, Some 0xA2, Some 0x04], [0x03, 0x02, 0x41, 0x42]),
      ([Some 0x40, Some 0x01, Some 0xA2, Some 0x05], [0xFE, 0x00, 0x00, 0x00])]"
    using t by (simp add: pn532_constants_def)
  have f: "fst (writeNdefData pn532_constants data st) = Some (Resolved ())"
    using t c by simp
  have r: "written (snd (writeNdefData pn532_constants data st)) =
     [[Some 0x40, Some 0x01, Some 0xA2, Some 0x04, Some 0x03, Some 0x02, Some 0x41, Some 0x42],
      [Some 0x40, Some 0x01, Some 0xA2, Some 0x05, Some 0xFE, None, None, None]]"
    using writeNdefData_run [of pn532_constants data st]
    by (simp add: s page_commands_def data_def TAG_MEM_NDEF_TLV_def TAG_MEM_TERMINATOR_TLV_def
        PAGE_SIZE_def set_length_def writeBlock_command_def options_or_empty_def js_or_def
        pn532_constants_def enumerate_eq_zip numeral_3_eq_3)
  show ?thesis
    using v f r unfolding st_def data_def by simp
qed

lemma emulateSetData_writeBlock_eq:
  "emulateSetData_writeBlock c totalBlocks n block st = writeNdefData_writeBlock c totalBlocks n block st"
proof (induction "totalBlocks - n" arbitrary: n block st)
  case 0
  then show ?case
    by (subst emulateSetData_writeBlock.simps, subst writeNdefData_writeBlock.simps) simp
next
  case (Suc k)
  then have lt: "n < totalBlocks" and k: "k = totalBlocks - (n + 1)"
    by simp_all
  show ?case
    by (subst emulateSetData_writeBlock.simps, subst writeNdefData_writeBlock.simps)
       (simp only: Suc.hyps(1) [OF k])
qed

text \<open>
  Claim C10. \<open>emulateSetData\<close> and \<open>writeNdefData\<close> are the same function: on every
  \<open>data\<close> and in every state they return the same result and leave the same state, so
  the same commands written in the same order.
\<close>

theorem emulateSetData_is_writeNdefData:
  "emulateSetData c data st = writeNdefData c data st"
  by (simp only: emulateSetData_def writeNdefData_def emulateSetData_writeBlock_eq)

text \<open>
  The two operations on the data \<open>AB\<close> and a device that answers the first command.
\<close>

theorem emulateSetData_is_writeNdefData_witness:
  "emulateSetData pn532_constants [Some 0x41, Some 0x42]
     (new_pn532 [[FrameEvent (DataFrame DeviceToHost [0x00, 0x00])]]) =
   writeNdefData pn532_constants [Some 0x41, Some 0x42]
     (new_pn532 [[FrameEvent (DataFrame DeviceToHost [0x00, 0x00])]])"
  by (rule emulateSetData_is_writeNdefData)

section \<open>\<open>readNdefData\<close> and polling\<close>

lemma readNdefData_unfold:
  "readNdefData c st =
     (case block_reply (incoming st) of
        Resolved block \<Rightarrow>
          (case find_ndef_tlv block (Some 0) of
             None \<Rightarrow> None
           | Some Exhausted \<Rightarrow>
               Some (catch_log (Rejected TlvNotFound,
                  snd (readBlock c (Some \<lparr>tagNumber = None, blockAddress = Some 0x04\<rparr>) st)))
           | Some (NdefTlv ndefLength ndefValueOffset) \<Rightarrow>
               (case retrieveBlock c (additional_blocks ndefValueOffset ndefLength) 1
                       (slice (int ndefValueOffset) (int (length block)) block)
                       (snd (readBlock c (Some \<lparr>tagNumber = None, blockAddress = Some 0x04\<rparr>) st)) of
                  (None, ndefData', st2) \<Rightarrow> Some (catch_log (Rejected TypeError, st2))
                | (Some allDataPromise, ndefData', st2) \<Rightarrow>
                    Some (catch_log (and_then (allDataPromise, st2)
                      (\<lambda>u st'. (Resolved (Some (slice_upto ndefLength ndefData')), st'))))))
      | Rejected e \<Rightarrow>
          Some (catch_log (Rejected e,
             snd (readBlock c (Some \<lparr>tagNumber = None, blockAddress = Some 0x04\<rparr>) st)))
      | Pending \<Rightarrow>
          Some (Pending, snd (readBlock c (Some \<lparr>tagNumber = None, blockAddress = Some 0x04\<rparr>) st)))"
proof -
  obtain r st1 where p: "readBlock c (Some \<lparr>tagNumber = None, blockAddress = Some 0x04\<rparr>) st = (r, st1)"
    by (cases "readBlock c (Some \<lparr>tagNumber = None, blockAddress = Some 0x04\<rparr>) st")
  have r: "block_reply (incoming st) = r"
    using readBlock_fields(1) [of c "Some \<lparr>tagNumber = None, blockAddress = Some 0x04\<rparr>" st] p by simp
  show ?thesis
    unfolding readNdefData_def r p
    by (cases r) (simp_all add: Let_def split: option.split scan.split)
qed

lemma find_ndef_tlv_NaN: "find_ndef_tlv block None = None"
proof (rule ccontr)
  assume "find_ndef_tlv block None \<noteq> None"
  then obtain y where y: "find_ndef_tlv block None = Some y"
    by auto
  have "None \<noteq> (None :: nat option)"
    by (rule find_ndef_tlv.raw_induct [where P = "\<lambda>block blockOffset y. blockOffset \<noteq> None", OF _ y])
       (auto split: option.splits)
  then show False by simp
qed

text \<open>
  A block whose last byte is reached as a type byte other than \<open>0x03\<close>: the length is
  read beyond the block, the offset becomes \<open>NaN\<close>, and the loop does not end.
\<close>

lemma find_ndef_tlv_type_in_last_byte:
  "find_ndef_tlv [0x01, 0x0D, 0, 0, 0, 0, 0, 0, 0, 0, 0, 0, 0, 0, 0, 0x00] (Some 0) = None"
  by (subst find_ndef_tlv.simps, simp add: buf_at_def TAG_MEM_NDEF_TLV_def,
      subst find_ndef_tlv.simps, simp add: buf_at_def TAG_MEM_NDEF_TLV_def find_ndef_tlv_NaN)

text \<open>
  Claim C2, amended. When the first block has been read and the TLV loop reaches the
  end of the block without finding the NDEF type byte, the \<open>Error\<close> it throws is caught
  by the \<open>catch\<close> handler of \<open>readNdefData\<close> itself: the error is logged and the promise
  of \<open>readNdefData\<close> resolves with \<open>undefined\<close>. Nothing but the read of the first block
  has been written.
\<close>

theorem readNdefData_tlv_not_found_is_swallowed:
  assumes "incoming st = evs # rest"
    and "reply evs = Resolved (DataFrame d body)"
    and "find_ndef_tlv (take (length body - 2) (drop 1 body)) (Some 0) = Some Exhausted"
  shows "map_option fst (readNdefData c st) = Some (Resolved None)
    \<and> map_option (\<lambda>r. logged (snd r)) (readNdefData c st) =
        Some (logged (snd (readBlock c (Some \<lparr>tagNumber = None, blockAddress = Some 0x04\<rparr>) st))
              @ [LogError TlvNotFound])
    \<and> map_option (\<lambda>r. written (snd r)) (readNdefData c st) =
        Some (written st @ [readBlock_command c (Some \<lparr>tagNumber = None, blockAddress = Some 0x04\<rparr>)])"
  using assms
  by (simp add: readNdefData_unfold stripped_def catch_log_def)

text \<open>
  A block of one TLV of type \<open>0x01\<close> and length 14, which fills the sixteen bytes.
\<close>

theorem readNdefData_tlv_not_found_is_swallowed_witness:
  "map_option fst (readNdefData pn532_constants (new_pn532 [[FrameEvent AckFrame,
      FrameEvent (DataFrame DeviceToHost
        [0x00, 0x01, 0x0E, 0, 0, 0, 0, 0, 0, 0, 0, 0, 0, 0, 0, 0, 0, 0x90])]]))
     = Some (Resolved None)
   \<and> map_option (\<lambda>r. logged (snd r)) (readNdefData pn532_constants (new_pn532 [[FrameEvent AckFrame,
      FrameEvent (DataFrame DeviceToHost
        [0x00, 0x01, 0x0E, 0, 0, 0, 0, 0, 0, 0, 0, 0, 0, 0, 0, 0, 0, 0x90])]]))
     = Some [LogError TlvNotFound]"
proof -
  define body :: buffer where "body = [0x00, 0x01, 0x0E, 0, 0, 0, 0, 0, 0, 0, 0, 0, 0, 0, 0, 0, 0, 0x90]"
  define evs where "evs = [FrameEvent AckFrame, FrameEvent (DataFrame DeviceToHost body)]"
  define st where "st = new_pn532 [evs]"
  have a: "incoming st = evs # []"
    by (simp add: st_def new_pn532_def)
  have b: "reply evs = Resolved (DataFrame DeviceToHost body)"
    by (simp add: evs_def)
  have c: "find_ndef_tlv (take (length body - 2) (drop 1 body)) (Some 0) = Some Exhausted"
    by (simp add: body_def find_ndef_tlv.simps buf_at_def TAG_MEM_NDEF_TLV_def)
  have l: "logged (snd (readBlock pn532_constants (Some \<lparr>tagNumber = None, blockAddress = Some 0x04\<rparr>) st)) = []"
    by (simp add: readBlock_def and_then_fields request_eq a b block_of_response_def Let_def body_def buf_at_def)
       (simp add: st_def evs_def new_pn532_def sendCommand_def settle_def removeListeners_def)
  note t = readNdefData_tlv_not_found_is_swallowed [OF a b c, of pn532_constants]
  have 1: "map_option fst (readNdefData pn532_constants st) = Some (Resolved None)"
    using t by (rule conjunct1)
  have 2: "map_option (\<lambda>r. logged (snd r)) (readNdefData pn532_constants st) = Some [LogError TlvNotFound]"
    using t [THEN conjunct2, THEN conjunct1] by (simp only: l append_Nil)
  show ?thesis
    using 1 2 unfolding st_def evs_def body_def by (rule conjI)
qed

text \<open>
  Claim C2 as stated fails: on that block the loop ends at the end of the block with no
  NDEF TLV found, and \<open>readNdefData\<close> resolves, with \<open>undefined\<close>; it is not rejected.
\<close>

theorem readNdefData_tlv_not_found_counterexample:
  "map_option fst (readNdefData pn532_constants (new_pn532 [[FrameEvent AckFrame,
      FrameEvent (DataFrame DeviceToHost
        [0x00, 0x01, 0x0E, 0, 0, 0, 0, 0, 0, 0, 0, 0, 0, 0, 0, 0, 0, 0x90])]]))
     = Some (Resolved None)
   \<and> find_ndef_tlv [0x01, 0x0E, 0, 0, 0, 0, 0, 0, 0, 0, 0, 0, 0, 0, 0, 0] (Some 0) = Some Exhausted"
proof -
  have c: "find_ndef_tlv [0x01, 0x0E, 0, 0, 0, 0, 0, 0, 0, 0, 0, 0, 0, 0, 0, 0] (Some 0) = Some Exhausted"
    by (simp add: find_ndef_tlv.simps buf_at_def TAG_MEM_NDEF_TLV_def)
  have "fst (the (readNdefData pn532_constants (new_pn532 [[FrameEvent AckFrame,
      FrameEvent (DataFrame DeviceToHost
        [0x00, 0x01, 0x0E, 0, 0, 0, 0, 0, 0, 0, 0, 0, 0, 0, 0, 0, 0, 0x90])]]))) = Resolved None"
    "readNdefData pn532_constants (new_pn532 [[FrameEvent AckFrame,
      FrameEvent (DataFrame DeviceToHost
        [0x00, 0x01, 0x0E, 0, 0, 0, 0, 0, 0, 0, 0, 0, 0, 0, 0, 0, 0, 0x90])]]) \<noteq> None"
    by (simp_all add: readNdefData_unfold new_pn532_def stripped_def c catch_log_def)
  then show ?thesis
    using c by (auto simp: option.map_sel)
qed

text \<open>
  Claim C4 at a first block that holds the whole message: TLV type \<open>0x03\<close>, length 3,
  value \<open>ABC\<close>, terminator. The TLV is found at value offset 2, no additional block is
  needed, \<open>retrieveBlock(1)\<close> returns \<open>undefined\<close>, \<open>allDataPromise.then\<close> throws a
  \<open>TypeError\<close>, the \<open>catch\<close> handler logs it and \<open>readNdefData\<close> resolves with
  \<open>undefined\<close>, where the claim has the three bytes \<open>ABC\<close>.
\<close>

theorem readNdefData_without_additional_block:
  "map_option fst (readNdefData pn532_constants (new_pn532 [[FrameEvent AckFrame,
      FrameEvent (DataFrame DeviceToHost
        [0x00, 0x03, 0x03, 0x41, 0x42, 0x43, 0xFE, 0, 0, 0, 0, 0, 0, 0, 0, 0, 0, 0x90])]]))
     = Some (Resolved None)
   \<and> map_option (\<lambda>r. logged (snd r)) (readNdefData pn532_constants (new_pn532 [[FrameEvent AckFrame,
      FrameEvent (DataFrame DeviceToHost
        [0x00, 0x03, 0x03, 0x41, 0x42, 0x43, 0xFE, 0, 0, 0, 0, 0, 0, 0, 0, 0, 0, 0x90])]]))
     = Some [LogError TypeError]
   \<and> find_ndef_tlv [0x03, 0x03, 0x41, 0x42, 0x43, 0xFE, 0, 0, 0, 0, 0, 0, 0, 0, 0, 0] (Some 0)
     = Some (NdefTlv (Some 3) 2)
   \<and> additional_blocks 2 (Some 3) = Some 0
   \<and> slice_upto (Some 3) (slice 2 16 [0x03, 0x03, 0x41, 0x42, 0x43, 0xFE, 0, 0, 0, 0, 0, 0, 0, 0, 0, 0])
     = [0x41, 0x42, 0x43]"
proof -
  define body :: buffer where "body = [0x00, 0x03, 0x03, 0x41, 0x42, 0x43, 0xFE, 0, 0, 0, 0, 0, 0, 0, 0, 0, 0, 0x90]"
  define block :: buffer where "block = [0x03, 0x03, 0x41, 0x42, 0x43, 0xFE, 0, 0, 0, 0, 0, 0, 0, 0, 0, 0]"
  define evs where "evs = [FrameEvent AckFrame, FrameEvent (DataFrame DeviceToHost body)]"
  define st where "st = new_pn532 [evs]"
  define st1 where "st1 = snd (readBlock pn532_constants (Some \<lparr>tagNumber = None, blockAddress = Some 0x04\<rparr>) st)"
  have r: "block_reply (incoming st) = Resolved block"
    by (simp add: st_def new_pn532_def evs_def stripped_def body_def block_def)
  have c: "find_ndef_tlv block (Some 0) = Some (NdefTlv (Some 3) 2)"
    by (simp add: block_def find_ndef_tlv.simps buf_at_def TAG_MEM_NDEF_TLV_def)
  have a: "additional_blocks 2 (Some 3) = Some 0"
    by (simp add: additional_blocks_def)
  have l: "logged st1 = []"
    unfolding st1_def
    by (simp add: readBlock_def and_then_fields request_eq block_of_response_def Let_def buf_at_def
          st_def evs_def body_def new_pn532_def)
       (simp add: sendCommand_def settle_def removeListeners_def)
  have t: "retrieveBlock pn532_constants (Some 0) (Suc 0) ndefData st1 = (None, ndefData, st1)" for ndefData
    by (subst retrieveBlock.simps) simp
  have "readNdefData pn532_constants st = Some (Resolved None, st1\<lparr>logged := logged st1 @ [LogError TypeError]\<rparr>)"
    by (simp add: readNdefData_unfold r c a t catch_log_def st1_def [symmetric])
  moreover have "slice_upto (Some 3) (slice 2 16 block) = [0x41, 0x42, 0x43]"
    by (simp add: slice_upto_def slice_def clamp_index_def block_def)
  ultimately have "map_option fst (readNdefData pn532_constants st) = Some (Resolved None)"
    "map_option (\<lambda>r. logged (snd r)) (readNdefData pn532_constants st) = Some [LogError TypeError]"
    "slice_upto (Some 3) (slice 2 16 block) = [0x41, 0x42, 0x43]"
    using l by simp_all
  then show ?thesis
    using c a unfolding st_def evs_def body_def block_def by (intro conjI)
qed

text \<open>
  The additional reads. \<open>retrieveBlock\<close> from block number \<open>n\<close> with \<open>k\<close> blocks to go
  reads them one after the other, at the block addresses \<open>4 * (n + 1)\<close>, \<open>4 * (n + 2)\<close>,
  ..., each when the one before has resolved, and appends every block read to
  \<open>ndefData\<close>.
\<close>

lemma retrieveBlock_done:
  "\<not> int n \<le> a \<Longrightarrow> retrieveBlock c (Some a) n ndefData st = (None, ndefData, st)"
  by (subst retrieveBlock.simps) simp

lemma retrieveBlock_unfold:
  assumes "int n \<le> a"
    and "w = readBlock c (Some \<lparr>tagNumber = None, blockAddress = Some (4 * (n + 1))\<rparr>) st"
  shows "retrieveBlock c (Some a) n ndefData st =
     (case fst w of
        Resolved block \<Rightarrow>
          (case retrieveBlock c (Some a) (n + 1) (ndefData @ block) (snd w) of
             (None, r) \<Rightarrow> (Some (Resolved ()), r)
           | (Some p, r) \<Rightarrow> (Some p, r))
      | Rejected e \<Rightarrow> (Some (Rejected e), ndefData, snd w)
      | Pending \<Rightarrow> (Some Pending, ndefData, snd w))"
proof -
  obtain r st1 where w: "w = (r, st1)"
    by (cases w)
  have "retrieveBlock c (Some a) n ndefData st =
     (case w of
        (Resolved block, st1) \<Rightarrow>
          (case retrieveBlock c (Some a) (n + 1) (ndefData @ block) st1 of
             (None, ndefData', st2) \<Rightarrow> (Some (Resolved ()), ndefData', st2)
           | (Some p, ndefData', st2) \<Rightarrow> (Some p, ndefData', st2))
      | (Rejected e, st1) \<Rightarrow> (Some (Rejected e), ndefData, st1)
      | (Pending, st1) \<Rightarrow> (Some Pending, ndefData, st1))"
    unfolding assms(2)
    by (subst retrieveBlock.simps) (simp only: assms(1) option.case if_True Let_def)
  also have "\<dots> =
     (case fst w of
        Resolved block \<Rightarrow>
          (case retrieveBlock c (Some a) (n + 1) (ndefData @ block) (snd w) of
             (None, r) \<Rightarrow> (Some (Resolved ()), r)
           | (Some p, r) \<Rightarrow> (Some p, r))
      | Rejected e \<Rightarrow> (Some (Rejected e), ndefData, snd w)
      | Pending \<Rightarrow> (Some Pending, ndefData, snd w))"
    unfolding w
    by (cases r) (simp_all split: prod.split option.split)
  finally show ?thesis .
qed

lemma retrieveBlock_run:
  "k = nat (a + 1 - int n) \<Longrightarrow>
   fst (retrieveBlock c (Some a) n ndefData st) =
     (if 0 < k then Some (chain_outcome k (incoming st)) else None)
   \<and> fst (snd (retrieveBlock c (Some a) n ndefData st)) =
       ndefData @ concat (map block_of (take (min k (answered (incoming st))) (incoming st)))
   \<and> written (snd (snd (retrieveBlock c (Some a) n ndefData st))) =
       written st @ (if 0 < k then take (Suc (answered (incoming st))) (read_commands c n k) else [])"
proof (induction k arbitrary: n ndefData st)
  case 0
  then have "\<not> int n \<le> a" by simp
  then show ?case
    by (simp add: retrieveBlock_done)
next
  case (Suc k)
  define w where "w = readBlock c (Some \<lparr>tagNumber = None, blockAddress = Some (4 * (n + 1))\<rparr>) st"
  define cmd where "cmd = readBlock_command c (Some \<lparr>tagNumber = None, blockAddress = Some (4 * (n + 1))\<rparr>)"
  have le: "int n \<le> a" and k: "k = nat (a + 1 - int (n + 1))"
    using Suc.prems by simp_all
  have w: "fst w = block_reply (incoming st)" "written (snd w) = written st @ [cmd]"
    "incoming (snd w) = tl (incoming st)"
    by (simp_all add: w_def cmd_def)
  have "[n..<n + Suc k] = n # [n + 1..<n + 1 + k]"
    using upt_conv_Cons [of n "n + Suc k"] by simp
  then have cmds: "read_commands c n (Suc k) = cmd # read_commands c (n + 1) k"
    unfolding read_commands_def cmd_def by (simp only: list.map)
  note u = retrieveBlock_unfold [OF le w_def, of ndefData]
  show ?case
  proof (cases "incoming st")
    case Nil
    then show ?thesis
      by (simp add: u w cmds chain_outcome_Nil)
  next
    case (Cons evs inc)
    show ?thesis
    proof (cases "reply evs")
      case Pending
      then show ?thesis
        using Cons by (simp add: u w cmds chain_outcome_Cons)
    next
      case (Rejected e)
      then show ?thesis
        using Cons by (simp add: u w cmds chain_outcome_Cons)
    next
      case (Resolved f)
      define rest where "rest = retrieveBlock c (Some a) (n + 1) (ndefData @ stripped f) (snd w)"
      have i: "incoming (snd w) = inc"
        using Cons by (simp add: w)
      have IH: "fst rest = (if 0 < k then Some (chain_outcome k inc) else None)"
        "fst (snd rest) = (ndefData @ stripped f) @ concat (map block_of (take (min k (answered inc)) inc))"
        "written (snd (snd rest)) = (written st @ [cmd]) @ (if 0 < k then take (Suc (answered inc)) (read_commands c (n + 1) k) else [])"
        using Suc.IH [OF k, of "ndefData @ stripped f" "snd w"]
        by (simp_all add: rest_def i w)
      have u': "retrieveBlock c (Some a) n ndefData st =
          (case rest of (None, r) \<Rightarrow> (Some (Resolved ()), r) | (Some p, r) \<Rightarrow> (Some p, r))"
        using Cons Resolved by (simp add: u w rest_def)
      have a: "answered (incoming st) = Suc (answered inc)" "block_of evs = stripped f"
        using Cons Resolved by (simp_all add: block_of_def)
      have c: "chain_outcome (Suc k) (incoming st) = (if 0 < k then chain_outcome k inc else Resolved ())"
        unfolding Cons using Resolved by (simp add: chain_outcome_Cons)
      have 1: "fst (retrieveBlock c (Some a) n ndefData st) = Some (chain_outcome (Suc k) (incoming st))"
        unfolding u' c using IH(1)
        by (cases rest; cases "fst rest") (auto split: if_splits)
      have 2: "fst (snd (retrieveBlock c (Some a) n ndefData st)) =
          ndefData @ concat (map block_of (take (min (Suc k) (answered (incoming st))) (incoming st)))"
        unfolding u' a(1) using IH(2) a(2) Cons
        by (cases rest; cases "fst rest") auto
      have 3: "written (snd (snd (retrieveBlock c (Some a) n ndefData st))) =
          written st @ take (Suc (answered (incoming st))) (read_commands c n (Suc k))"
        unfolding u' cmds a(1) using IH(3)
        by (cases rest; cases "fst rest") (auto simp: read_commands_def split: if_splits)
      show ?thesis
        using 1 2 3 by simp
    qed
  qed
qed

lemma slice_from: "slice (int v) (int (length xs)) xs = drop v xs"
  by (simp add: slice_nat)

lemma slice_upto_Some: "slice_upto (Some l) xs = take (unat l) xs"
  using slice_nat [of 0 "unat l" xs] by (simp add: slice_upto_def)

text \<open>
  When the TLV is found with a length \<open>l\<close> at value offset \<open>v\<close>, at least one additional
  block is needed and every additional read is answered with a data frame,
  \<open>readNdefData\<close> reads \<open>ceil((v + l) / 16) - 1\<close> additional blocks at the addresses 8, 12,
  ... in this order and resolves with the first \<open>l\<close> bytes of the rest of the first
  block followed by the blocks read.
\<close>

lemma readNdefData_with_additional_blocks:
  assumes "incoming st = evs # rest"
    and "reply evs = Resolved (DataFrame d body)"
    and "block = take (length body - 2) (drop 1 body)"
    and "find_ndef_tlv block (Some 0) = Some (NdefTlv (Some l) v)"
    and "k = (v + unat l + 15) div 16 - 1"
    and "0 < k"
    and "k \<le> answered rest"
  shows "map_option fst (readNdefData c st) =
      Some (Resolved (Some (take (unat l) (drop v block @ concat (map block_of (take k rest))))))
    \<and> map_option (\<lambda>r. written (snd r)) (readNdefData c st) =
      Some (written st @ readBlock_command c (Some \<lparr>tagNumber = None, blockAddress = Some 0x04\<rparr>)
              # read_commands c 1 k)"
proof -
  define st1 where "st1 = snd (readBlock c (Some \<lparr>tagNumber = None, blockAddress = Some 0x04\<rparr>) st)"
  define ndefData where "ndefData = slice (int v) (int (length block)) block"
  define rb where "rb = retrieveBlock c (Some (int k)) (Suc 0) ndefData st1"
  have r: "block_reply (incoming st) = Resolved block"
    using assms(1,2,3) by (simp add: stripped_def)
  have i: "incoming st1 = rest" "written st1 = written st @ [readBlock_command c (Some \<lparr>tagNumber = None, blockAddress = Some 0x04\<rparr>)]"
    using assms(1) by (simp_all add: st1_def)
  have a: "additional_blocks v (Some l) = Some (int k)"
    using assms(5,6) by (simp add: additional_blocks_def)
  have m: "min k (answered rest) = k"
    using assms(7) by simp
  have len: "length (read_commands c n k) = k" for n
    by (simp add: read_commands_def)
  have run: "fst rb = Some (Resolved ())"
    "fst (snd rb) = ndefData @ concat (map block_of (take k rest))"
    "written (snd (snd rb)) = written st1 @ read_commands c 1 k"
    using retrieveBlock_run [of k "int k" "Suc 0" c ndefData st1] assms(6,7)
    by (simp_all add: rb_def i(1) m len chain_outcome_def)
  obtain nd st2 where rb: "rb = (Some (Resolved ()), nd, st2)"
    using run(1) by (cases rb) auto
  have nd: "nd = drop v block @ concat (map block_of (take k rest))"
    and st2: "written st2 = written st1 @ read_commands c 1 k"
    using run(2,3) by (simp_all add: rb ndefData_def slice_from)
  have "readNdefData c st = Some (Resolved (Some (slice_upto (Some l) nd)), st2)"
    using rb
    by (simp add: readNdefData_unfold r assms(4) a catch_log_def and_then_def
        st1_def [symmetric] ndefData_def [symmetric] rb_def [symmetric])
  then show ?thesis
    by (simp add: slice_upto_Some nd st2 i(2))
qed

text \<open>
  For contrast, a message that needs one additional block: value offset 2 and length 15.
  The block at address 8 is read and the fifteen bytes are returned.
\<close>

lemma readNdefData_with_one_additional_block:
  "map_option fst (readNdefData pn532_constants (new_pn532
      [[FrameEvent AckFrame, FrameEvent (DataFrame DeviceToHost
          [0x00, 0x03, 0x0F, 1, 2, 3, 4, 5, 6, 7, 8, 9, 10, 11, 12, 13, 14, 0x90])],
       [FrameEvent AckFrame, FrameEvent (DataFrame DeviceToHost
          [0x00, 15, 0xFE, 0, 0, 0, 0, 0, 0, 0, 0, 0, 0, 0, 0, 0, 0, 0x90])]]))
     = Some (Resolved (Some [1, 2, 3, 4, 5, 6, 7, 8, 9, 10, 11, 12, 13, 14, 15]))"
proof -
  define body1 :: buffer where "body1 = [0x00, 0x03, 0x0F, 1, 2, 3, 4, 5, 6, 7, 8, 9, 10, 11, 12, 13, 14, 0x90]"
  define body2 :: buffer where "body2 = [0x00, 15, 0xFE, 0, 0, 0, 0, 0, 0, 0, 0, 0, 0, 0, 0, 0, 0, 0x90]"
  define block :: buffer where "block = [0x03, 0x0F, 1, 2, 3, 4, 5, 6, 7, 8, 9, 10, 11, 12, 13, 14]"
  define block2 :: buffer where "block2 = [15, 0xFE, 0, 0, 0, 0, 0, 0, 0, 0, 0, 0, 0, 0, 0, 0]"
  define st where "st = new_pn532 [[FrameEvent AckFrame, FrameEvent (DataFrame DeviceToHost body1)],
       [FrameEvent AckFrame, FrameEvent (DataFrame DeviceToHost body2)]]"
  define st1 where "st1 = snd (readBlock pn532_constants (Some \<lparr>tagNumber = None, blockAddress = Some 0x04\<rparr>) st)"
  define st2 where "st2 = snd (readBlock pn532_constants (Some \<lparr>tagNumber = None, blockAddress = Some 8\<rparr>) st1)"
  have r: "block_reply (incoming st) = Resolved block"
    by (simp add: st_def new_pn532_def stripped_def body1_def block_def)
  have i1: "incoming st1 = [[FrameEvent AckFrame, FrameEvent (DataFrame DeviceToHost body2)]]"
    by (simp add: st1_def st_def new_pn532_def)
  have r2: "block_reply (incoming st1) = Resolved block2"
    by (simp add: i1 stripped_def body2_def block2_def)
  have c: "find_ndef_tlv block (Some 0) = Some (NdefTlv (Some 15) 2)"
    by (simp add: block_def find_ndef_tlv.simps buf_at_def TAG_MEM_NDEF_TLV_def)
  have a: "additional_blocks 2 (Some 15) = Some 1"
    by (simp add: additional_blocks_def)
  have t2: "retrieveBlock pn532_constants (Some 1) (Suc (Suc 0)) ndefData st2 = (None, ndefData, st2)" for ndefData
    by (subst retrieveBlock.simps) simp
  have p: "readBlock pn532_constants (Some \<lparr>tagNumber = None, blockAddress = Some 8\<rparr>) st1 = (Resolved block2, st2)"
    using readBlock_fields(1) [of pn532_constants "Some \<lparr>tagNumber = None, blockAddress = Some 8\<rparr>" st1]
    by (simp add: r2 st2_def prod_eq_iff)
  have t1: "retrieveBlock pn532_constants (Some 1) (Suc 0) ndefData st1 = (Some (Resolved ()), ndefData @ block2, st2)"
    for ndefData
    by (subst retrieveBlock.simps) (simp add: p t2)
  have "readNdefData pn532_constants st =
      Some (Resolved (Some (slice_upto (Some 15) (slice 2 (int (length block)) block @ block2))), st2)"
    by (simp add: readNdefData_unfold r c a t1 catch_log_def and_then_def st1_def [symmetric])
  moreover have "slice_upto (Some 15) (slice 2 (int (length block)) block @ block2) =
      [1, 2, 3, 4, 5, 6, 7, 8, 9, 10, 11, 12, 13, 14, 15]"
    by (simp add: slice_upto_def slice_def clamp_index_def block_def block2_def)
  ultimately show ?thesis
    unfolding st_def body1_def body2_def by simp
qed

text \<open>
  Claim C7 at two \<open>'tag'\<close> listeners added to a new instance: each \<open>on('tag', ...)\<close>
  starts a polling loop of its own. Two loops are running, two scan commands have been
  written and none answered, and both requests are pending with their listeners
  registered.
\<close>

theorem two_tag_listeners_start_two_polling_loops:
  "polling (addListener c ''tag'' (addListener c ''tag'' (new_pn532 []))) = [0, 1]
 \<and> written (addListener c ''tag'' (addListener c ''tag'' (new_pn532 []))) = [scanTag_command c, scanTag_command c]
 \<and> promises (addListener c ''tag'' (addListener c ''tag'' (new_pn532 []))) 0 = Pending
 \<and> promises (addListener c ''tag'' (addListener c ''tag'' (new_pn532 []))) 1 = Pending
 \<and> frame_listeners (addListener c ''tag'' (addListener c ''tag'' (new_pn532 []))) = [0, 1]
 \<and> listeners (addListener c ''tag'' (addListener c ''tag'' (new_pn532 []))) = [''tag'', ''tag'']"
  by (simp add: addListener_def newListener_def sendCommand_def new_pn532_def Let_def)

end
